theory Spec2Isabelle
  imports Main "HOL-Library.AList"
begin

section \<open>Python values and primitives\<close>

text \<open>
  The request body is decoded JSON. Objects are Python dicts: association lists in
  insertion order, read with \<open>map_of\<close>, written with \<open>AList.update\<close> (a present key keeps
  its place, a new key goes last, as in Python). The keys of a decoded object are strings,
  but the parser builds one dict whose key is a value of the request, so a key is any
  value. Numbers are the integers; JSON numbers with a fraction are not modelled.
\<close>

datatype json =
    JNull
  | JBool bool
  | JNum int
  | JStr string
  | JList "json list"
  | JObj "(json \<times> json) list"

text \<open>
  The exceptions the code raises or lets through. \<open>JsonApiParseError\<close> and
  \<open>UnprocessableEntity\<close> carry the machine id and the source pointer; the human-readable
  detail is left out. \<open>MissingPrimaryData\<close> and \<open>InvalidPrimaryDataType\<close> are classes of
  \<^verbatim>\<open>exceptions.py\<close>, built from the operation index (and the expected type).
\<close>

datatype error =
    JsonApiParseError string string
  | MissingPrimaryData nat
  | InvalidPrimaryDataType nat string
  | UnprocessableEntity string string
  | ImproperlyConfigured
  | ObjectDoesNotExist
  | ValidationError
  | KeyError
  | TypeError
  | AttributeError

definition and_then :: "error + 'a \<Rightarrow> ('a \<Rightarrow> error + 'b) \<Rightarrow> error + 'b" where
  "and_then r f = (case r of Inl e \<Rightarrow> Inl e | Inr x \<Rightarrow> f x)"

text \<open>Python's \<^verbatim>\<open>bool(v)\<close>: what \<^verbatim>\<open>if v\<close> and \<^verbatim>\<open>not v\<close> test.\<close>

fun truthy :: "json \<Rightarrow> bool" where
  "truthy JNull = False"
| "truthy (JBool b) = b"
| "truthy (JNum n) = (n \<noteq> 0)"
| "truthy (JStr s) = (s \<noteq> [])"
| "truthy (JList xs) = (xs \<noteq> [])"
| "truthy (JObj kvs) = (kvs \<noteq> [])"

text \<open>\<^verbatim>\<open>a or b\<close> and \<^verbatim>\<open>a and b\<close> return one of their operands.\<close>

definition py_or :: "json \<Rightarrow> json \<Rightarrow> json" where
  "py_or a b = (if truthy a then a else b)"

definition py_and :: "json \<Rightarrow> json \<Rightarrow> json" where
  "py_and a b = (if truthy a then b else a)"

text \<open>\<^verbatim>\<open>d.get(k)\<close> on a dict: a missing key gives \<^verbatim>\<open>None\<close>.\<close>

definition dict_get :: "(json \<times> json) list \<Rightarrow> string \<Rightarrow> json" where
  "dict_get d k = (case map_of d (JStr k) of None \<Rightarrow> JNull | Some v \<Rightarrow> v)"

text \<open>\<^verbatim>\<open>v.get(k)\<close> on any value: only a dict has the method.\<close>

fun py_get :: "json \<Rightarrow> string \<Rightarrow> error + json" where
  "py_get (JObj kvs) k = Inr (dict_get kvs k)"
| "py_get _ k = Inl AttributeError"

text \<open>\<^verbatim>\<open>v.get(k, default)\<close>\<close>

fun py_get_default :: "json \<Rightarrow> string \<Rightarrow> json \<Rightarrow> error + json" where
  "py_get_default (JObj kvs) k d = Inr (case map_of kvs (JStr k) of None \<Rightarrow> d | Some v \<Rightarrow> v)"
| "py_get_default _ k d = Inl AttributeError"

text \<open>\<^verbatim>\<open>v[k]\<close> with a string key: \<^verbatim>\<open>KeyError\<close> on a dict without the key, \<^verbatim>\<open>TypeError\<close> on
  every other JSON value.\<close>

fun py_getitem :: "json \<Rightarrow> string \<Rightarrow> error + json" where
  "py_getitem (JObj kvs) k = (case map_of kvs (JStr k) of None \<Rightarrow> Inl KeyError | Some v \<Rightarrow> Inr v)"
| "py_getitem _ k = Inl TypeError"

text \<open>\<^verbatim>\<open>k in v\<close> for a string \<open>k\<close>: a key of a dict, an element of a list, a substring of a
  string; the other JSON values are not iterable.\<close>

fun is_substring :: "string \<Rightarrow> string \<Rightarrow> bool" where
  "is_substring k [] = (k = [])"
| "is_substring k (c # cs) = (take (length k) (c # cs) = k \<or> is_substring k cs)"

fun py_in :: "string \<Rightarrow> json \<Rightarrow> error + bool" where
  "py_in k (JObj kvs) = Inr (map_of kvs (JStr k) \<noteq> None)"
| "py_in k (JList xs) = Inr (JStr k \<in> set xs)"
| "py_in k (JStr s) = Inr (is_substring k s)"
| "py_in k _ = Inl TypeError"

text \<open>
  A dict key is hashed: a list or a dict raises \<^verbatim>\<open>TypeError\<close>, and \<^verbatim>\<open>True\<close> and \<^verbatim>\<open>False\<close> are
  the keys \<open>1\<close> and \<open>0\<close>. The keys of a dict have all been hashed; two of them are the same
  key when they hash alike.
\<close>

fun dict_key :: "json \<Rightarrow> error + json" where
  "dict_key (JBool b) = Inr (JNum (if b then 1 else 0))"
| "dict_key (JList xs) = Inl TypeError"
| "dict_key (JObj kvs) = Inl TypeError"
| "dict_key v = Inr v"

definition same_key :: "json \<Rightarrow> json \<Rightarrow> bool" where
  "same_key a b = (case (dict_key a, dict_key b) of (Inr x, Inr y) \<Rightarrow> x = y | _ \<Rightarrow> False)"

text \<open>\<^verbatim>\<open>d[k] = v\<close> for any key: a key that is there keeps its place and its spelling.\<close>

fun dict_setitem :: "json \<Rightarrow> json \<Rightarrow> (json \<times> json) list \<Rightarrow> (json \<times> json) list" where
  "dict_setitem k v [] = [(k, v)]"
| "dict_setitem k v ((k', v') # d) =
     (if same_key k' k then (k', v) # d else (k', v') # dict_setitem k v d)"

text \<open>Decimal rendering of an index, as an f-string prints an \<^verbatim>\<open>int\<close>.\<close>

function string_of_nat :: "nat \<Rightarrow> string" where
  "string_of_nat n =
     (if n < 10 then [''0123456789'' ! n]
      else string_of_nat (n div 10) @ [''0123456789'' ! (n mod 10)])"
  by pat_completeness auto
termination
  by (relation "measure id") auto

declare string_of_nat.simps [simp del]

definition string_of_int :: "int \<Rightarrow> string" where
  "string_of_int i = (if i < 0 then CHR ''-'' # string_of_nat (nat (- i)) else string_of_nat (nat i))"

text \<open>
  \<^verbatim>\<open>str(v)\<close>, which an f-string applies to a replacement field. The rendering of a list or
  a dict is Python's \<^verbatim>\<open>repr\<close>, taken as the parameter \<open>repr\<close>.
\<close>

fun py_str :: "(json \<Rightarrow> string) \<Rightarrow> json \<Rightarrow> string" where
  "py_str repr JNull = ''None''"
| "py_str repr (JBool b) = (if b then ''True'' else ''False'')"
| "py_str repr (JNum n) = string_of_int n"
| "py_str repr (JStr s) = s"
| "py_str repr v = repr v"

section \<open>Constants (consts.py)\<close>

definition ATOMIC_OPERATIONS :: string where
  "ATOMIC_OPERATIONS = ''atomic:operations''"

definition OP_ADD :: string where "OP_ADD = ''add''"
definition OP_UPDATE :: string where "OP_UPDATE = ''update''"
definition OP_REMOVE :: string where "OP_REMOVE = ''remove''"
definition OP_INVOKE :: string where "OP_INVOKE = ''invoke''"
definition OP_UPDATE_RELATIONSHIP :: string where
  "OP_UPDATE_RELATIONSHIP = ''update-relationship''"

section \<open>The parser's checks (parsers.py)\<close>

text \<open>The pointer \<^verbatim>\<open>f"/{ATOMIC_OPERATIONS}/{idx}"\<close>, to which the checks append a field.\<close>

definition operation_pointer :: "nat \<Rightarrow> string" where
  "operation_pointer idx = ''/'' @ ATOMIC_OPERATIONS @ ''/'' @ string_of_nat idx"

text \<open>\<^verbatim>\<open>'data' if operation_code == 'update' else 'ref'\<close>\<close>

definition data_or_ref :: "json \<Rightarrow> string" where
  "data_or_ref operation_code = (if operation_code = JStr ''update'' then ''data'' else ''ref'')"

definition check_resource_identifier_object :: "nat \<Rightarrow> json \<Rightarrow> json \<Rightarrow> error + unit" where
  "check_resource_identifier_object idx resource_identifier_object operation_code =
     and_then
       (if operation_code \<in> {JStr ''update'', JStr ''remove''} then
          and_then (py_get resource_identifier_object ''id'') (\<lambda>resource_id.
          and_then (py_get resource_identifier_object ''lid'') (\<lambda>resource_lid.
            if \<not> truthy (py_or resource_id resource_lid) then
              Inl (JsonApiParseError ''missing-id''
                     (operation_pointer idx @ ''/'' @ data_or_ref operation_code))
            else if truthy (py_and resource_id resource_lid) then
              Inl (JsonApiParseError ''multiple-id-fields''
                     (operation_pointer idx @ ''/'' @ data_or_ref operation_code))
            else Inr ()))
        else Inr ())
       (\<lambda>_. and_then (py_get resource_identifier_object ''type'') (\<lambda>ty.
          if \<not> truthy ty then
            Inl (JsonApiParseError ''missing-type''
                   (operation_pointer idx @ ''/'' @ data_or_ref operation_code))
          else Inr ()))"

definition check_add_operation :: "nat \<Rightarrow> json \<Rightarrow> error + unit" where
  "check_add_operation idx data =
     (case data of
        JObj kvs \<Rightarrow> check_resource_identifier_object idx data (JStr ''add'')
      | _ \<Rightarrow> Inl (MissingPrimaryData idx))"

text \<open>The loop \<^verbatim>\<open>for relation in data: check_resource_identifier_object(...)\<close>.\<close>

fun check_relations :: "nat \<Rightarrow> json list \<Rightarrow> error + unit" where
  "check_relations idx [] = Inr ()"
| "check_relations idx (relation # rest) =
     and_then (check_resource_identifier_object idx relation (JStr ''update''))
       (\<lambda>_. check_relations idx rest)"

text \<open>
  \<open>check_relation_update\<close> is only called with a truthy \<^verbatim>\<open>operation.get("ref")\<close>, so
  \<^verbatim>\<open>operation["ref"]\<close> is read with \<open>py_getitem\<close>. The \<^verbatim>\<open>try\<close> block turns the
  \<^verbatim>\<open>KeyError\<close> of \<^verbatim>\<open>operation["data"]\<close> into \<open>MissingPrimaryData\<close>; nothing else in the block
  raises a \<^verbatim>\<open>KeyError\<close>.
\<close>

definition check_relation_update :: "nat \<Rightarrow> json \<Rightarrow> error + unit" where
  "check_relation_update idx operation =
     and_then (py_getitem operation ''ref'') (\<lambda>ref.
     and_then (check_resource_identifier_object idx ref (JStr ''update'')) (\<lambda>_.
     and_then (py_get ref ''relationship'') (\<lambda>relationship.
       if \<not> truthy relationship then
         Inl (JsonApiParseError ''missing-relationship-naming'' (operation_pointer idx @ ''/ref''))
       else
         (case py_getitem operation ''data'' of
            Inl KeyError \<Rightarrow> Inl (MissingPrimaryData idx)
          | Inl e \<Rightarrow> Inl e
          | Inr JNull \<Rightarrow> Inr ()
          | Inr (JObj kvs) \<Rightarrow>
              check_resource_identifier_object idx (JObj kvs) (JStr ''update'')
          | Inr (JList relations) \<Rightarrow> check_relations idx relations
          | Inr _ \<Rightarrow> Inl (InvalidPrimaryDataType idx ''object or array'')))))"

definition check_update_operation :: "nat \<Rightarrow> json \<Rightarrow> error + unit" where
  "check_update_operation idx operation =
     and_then (py_get operation ''ref'') (\<lambda>ref.
       if truthy ref then check_relation_update idx operation
       else
         and_then (py_get operation ''data'') (\<lambda>data.
           if \<not> truthy data then Inl (MissingPrimaryData idx)
           else
             (case data of
                JObj kvs \<Rightarrow>
                  and_then (py_getitem operation ''op'')
                    (\<lambda>op. check_resource_identifier_object idx data op)
              | _ \<Rightarrow> Inl (InvalidPrimaryDataType idx ''object''))))"

definition check_remove_operation :: "nat \<Rightarrow> json \<Rightarrow> error + unit" where
  "check_remove_operation idx ref =
     (if \<not> truthy ref then
        Inl (JsonApiParseError ''missing-ref-attribute'' (operation_pointer idx))
      else check_resource_identifier_object idx ref (JStr ''remove''))"

definition check_invoke_operation :: "nat \<Rightarrow> json \<Rightarrow> error + unit" where
  "check_invoke_operation idx operation =
     and_then (py_get operation ''ref'') (\<lambda>ref.
       if \<not> truthy ref then
         Inl (JsonApiParseError ''missing-ref-attribute'' (operation_pointer idx))
       else
         and_then (py_get ref ''href'') (\<lambda>href.
           if \<not> truthy href then
             Inl (JsonApiParseError ''missing-href-attribute'' (operation_pointer idx @ ''/ref''))
           else
             and_then (py_get ref ''type'') (\<lambda>ty.
               if \<not> truthy ty then
                 Inl (JsonApiParseError ''missing-type'' (operation_pointer idx @ ''/ref''))
               else Inr ())))"

definition check_operation :: "nat \<Rightarrow> json \<Rightarrow> error + unit" where
  "check_operation idx operation =
     and_then (py_get operation ''op'') (\<lambda>operation_code.
     and_then (py_get operation ''ref'') (\<lambda>ref.
     and_then (py_get operation ''href'') (\<lambda>href.
     and_then (py_get operation ''data'') (\<lambda>data.
       if \<not> truthy operation_code then
         Inl (JsonApiParseError ''missing-operation-code'' (operation_pointer idx @ ''/op''))
       else if truthy href \<and> operation_code \<noteq> JStr OP_INVOKE then
         Inl (JsonApiParseError ''not-implemented'' (operation_pointer idx @ ''/href''))
       else if operation_code = JStr OP_ADD then check_add_operation idx data
       else if operation_code = JStr OP_REMOVE then check_remove_operation idx ref
       else if operation_code = JStr OP_UPDATE then check_update_operation idx operation
       else if operation_code = JStr OP_INVOKE then check_invoke_operation idx operation
       else
         Inl (JsonApiParseError ''unknown-operation-code'' (operation_pointer idx @ ''/op''))))))"

text \<open>
  Modelled from the spec: \<^verbatim>\<open>exceptions.py\<close> is not among the sources. The spec lists the
  machine ids \<open>missing-primary-data\<close> and \<open>invalid-primary-data-type\<close> for the two classes
  the parser imports from it; the errors built in place carry their id themselves.
\<close>

fun error_id :: "error \<Rightarrow> string option" where
  "error_id (JsonApiParseError i p) = Some i"
| "error_id (UnprocessableEntity i p) = Some i"
| "error_id (MissingPrimaryData idx) = Some ''missing-primary-data''"
| "error_id (InvalidPrimaryDataType idx expected) = Some ''invalid-primary-data-type''"
| "error_id _ = None"

definition is_bulk_operation_type :: "json \<Rightarrow> error + bool" where
  "is_bulk_operation_type resource_type =
     (if \<not> truthy resource_type then Inr False
      else (case resource_type of
              JStr s \<Rightarrow> Inr (take 4 s = ''bulk'')
            | _ \<Rightarrow> Inl AttributeError))"

text \<open>\<^verbatim>\<open>d.update(other)\<close>: the members of \<open>other\<close> are written in their order.\<close>

definition dict_update :: "(json \<times> json) list \<Rightarrow> (json \<times> json) list \<Rightarrow> (json \<times> json) list" where
  "dict_update d other = foldl (\<lambda>acc (k, v). dict_setitem k v acc) d other"

definition parse_id_lid_and_type :: "json \<Rightarrow> error + (json \<times> json) list" where
  "parse_id_lid_and_type resource_identifier_object =
     and_then (py_in ''id'' resource_identifier_object) (\<lambda>has_id.
     and_then (py_get resource_identifier_object ''id'') (\<lambda>resource_id.
     and_then (py_get resource_identifier_object ''type'') (\<lambda>ty.
     and_then (py_get resource_identifier_object ''lid'') (\<lambda>lid.
       Inr ((if has_id then [(JStr ''id'', resource_id)] else [])
            @ [(JStr ''type'', ty)]
            @ (if truthy lid then [(JStr ''lid'', lid)] else []))))))"

text \<open>
  \<open>parse_operation_metadata\<close> formats its pointers without a leading slash and from the
  resource's \<open>id\<close> or \<open>lid\<close> (\<^verbatim>\<open>None\<close> when it has neither), which the source calls
  \<^verbatim>\<open>idx\<close>. The loop over the meta members stops at the first \<open>include\<close> that is not a list.
\<close>

definition metadata_idx :: "json \<Rightarrow> error + json" where
  "metadata_idx resource_identifier_object =
     and_then (py_in ''id'' resource_identifier_object) (\<lambda>has_id.
       if has_id then py_get resource_identifier_object ''id''
       else and_then (py_in ''lid'' resource_identifier_object) (\<lambda>has_lid.
         if has_lid then py_get resource_identifier_object ''lid'' else Inr JNull))"

fun is_list :: "json \<Rightarrow> bool" where
  "is_list (JList xs) = True"
| "is_list _ = False"

definition parse_operation_metadata ::
  "(json \<Rightarrow> string) \<Rightarrow> json \<Rightarrow> json \<Rightarrow> error + (json \<times> json) list" where
  "parse_operation_metadata repr resource_identifier_object metadata =
     (if \<not> truthy metadata then Inr []
      else
        and_then (metadata_idx resource_identifier_object) (\<lambda>idx.
          (case metadata of
             JObj members \<Rightarrow>
               (if \<exists>(key, v) \<in> set members. key = JStr ''include'' \<and> \<not> is_list v then
                  Inl (JsonApiParseError ''invalid-operation-include-value''
                         (ATOMIC_OPERATIONS @ ''/'' @ py_str repr idx @ ''/meta/include''))
                else Inr [(JStr ''meta'', metadata)])
           | _ \<Rightarrow>
               Inl (JsonApiParseError ''invalid-operation-meta-object''
                      (ATOMIC_OPERATIONS @ ''/'' @ py_str repr idx @ ''/meta'')))))"

text \<open>
  The methods \<open>parse_operation\<close> inherits from the JSON:API library's \<^verbatim>\<open>JSONParser\<close>
  (\<^verbatim>\<open>parse_attributes\<close>, \<^verbatim>\<open>parse_relationships\<close>, \<^verbatim>\<open>parse_metadata\<close>) and Python's \<^verbatim>\<open>repr\<close>
  are parameters of the parser.
\<close>

record json_parser =
  parse_attributes :: "json \<Rightarrow> error + (json \<times> json) list"
  parse_relationships :: "json \<Rightarrow> error + (json \<times> json) list"
  parse_metadata :: "json \<Rightarrow> error + (json \<times> json) list"
  parser_repr :: "json \<Rightarrow> string"

definition parse_operation ::
  "json_parser \<Rightarrow> json \<Rightarrow> json \<Rightarrow> error + (json \<times> json) list" where
  "parse_operation P resource_identifier_object result =
     and_then (parse_id_lid_and_type resource_identifier_object) (\<lambda>d0.
     and_then (parse_attributes P resource_identifier_object) (\<lambda>attrs.
     and_then (parse_relationships P resource_identifier_object) (\<lambda>rels.
     and_then (parse_metadata P result) (\<lambda>meta.
       Inr (dict_update (dict_update (dict_update d0 attrs) rels) meta)))))"

definition check_root :: "json \<Rightarrow> error + json list" where
  "check_root result =
     (case result of
        JObj members \<Rightarrow>
          (case map_of members (JStr ATOMIC_OPERATIONS) of
             None \<Rightarrow> Inl (JsonApiParseError ''missing-operation-objects'' (''/'' @ ATOMIC_OPERATIONS))
           | Some (JList operations) \<Rightarrow> Inr operations
           | Some _ \<Rightarrow> Inl (JsonApiParseError ''invalid-operation-objects'' (''/'' @ ATOMIC_OPERATIONS)))
      | _ \<Rightarrow> Inl (JsonApiParseError ''missing-operation-objects'' (''/'' @ ATOMIC_OPERATIONS)))"

text \<open>
  The \<open>ref\<close> of a relationship update after
  \<^verbatim>\<open>ref["relationships"] = {ref.pop("relationship"): {"data": operation["data"]}}\<close>.
\<close>

definition rewritten_ref :: "(json \<times> json) list \<Rightarrow> json \<Rightarrow> json \<Rightarrow> json" where
  "rewritten_ref ref_members relationship data =
     JObj (AList.update (JStr ''relationships'')
             (JObj [(relationship, JObj [(JStr ''data'', data)])])
             (AList.delete (JStr ''relationship'') ref_members))"

text \<open>
  The rewrite changes the \<open>ref\<close> in place, and the \<open>ref\<close> is part of the document:
  afterwards the document holds the rewritten \<open>ref\<close> in its operation at index \<open>idx\<close>.
\<close>

definition document_with_ref :: "json \<Rightarrow> nat \<Rightarrow> json \<Rightarrow> json" where
  "document_with_ref result idx ref =
     (case result of
        JObj members \<Rightarrow>
          (case map_of members (JStr ATOMIC_OPERATIONS) of
             Some (JList operations) \<Rightarrow>
               (if idx < length operations then
                  (case operations ! idx of
                     JObj operation \<Rightarrow>
                       JObj (AList.update (JStr ATOMIC_OPERATIONS)
                               (JList (operations[idx := JObj (AList.update (JStr ''ref'') ref operation)]))
                               members)
                   | _ \<Rightarrow> result)
                else result)
           | _ \<Rightarrow> result)
      | _ \<Rightarrow> result)"

text \<open>
  One round of the loop of \<open>parse_data\<close>: an operation of the request becomes the pair of
  its operation code and its parsed payload (the source's one-member dict); the round
  also returns the document as it leaves it. A relationship update pops
  \<^verbatim>\<open>ref.relationship\<close>, reads \<^verbatim>\<open>operation["data"]\<close> and builds the one-member dict of
  \<^verbatim>\<open>ref["relationships"]\<close> with the popped value as its key: any value that can be hashed,
  while a list or a dict raises \<^verbatim>\<open>TypeError\<close>. The branch for an \<open>add\<close> of a bulk resource
  type and the standard branch build the same pair; they differ in how they read \<open>data\<close>.
\<close>

definition parse_one ::
  "json_parser \<Rightarrow> json \<Rightarrow> nat \<Rightarrow> json \<Rightarrow> error + (string \<times> json) \<times> json" where
  "parse_one P result idx operation =
     and_then (check_operation idx operation) (\<lambda>_.
     and_then (py_get operation ''meta'') (\<lambda>meta.
     and_then (py_getitem operation ''op'') (\<lambda>op_code.
     and_then (py_get operation ''ref'') (\<lambda>ref0.
       if op_code = JStr OP_UPDATE \<and> truthy ref0 then
         (case ref0 of
            JObj ref_members \<Rightarrow>
              (case map_of ref_members (JStr ''relationship'') of
                 None \<Rightarrow> Inl KeyError
               | Some relationship \<Rightarrow>
                   and_then (py_getitem operation ''data'') (\<lambda>data.
                   and_then (dict_key relationship) (\<lambda>_.
                     let ref = rewritten_ref ref_members relationship data;
                         result' = document_with_ref result idx ref
                     in and_then (parse_operation P ref result') (\<lambda>parsed.
                        and_then (parse_operation_metadata (parser_repr P) ref meta) (\<lambda>m.
                          Inr ((OP_UPDATE_RELATIONSHIP, JObj (dict_update parsed m)), result'))))))
          | _ \<Rightarrow> Inl AttributeError)
       else if op_code = JStr OP_INVOKE then
         and_then (py_getitem operation ''ref'') (\<lambda>ref.
         and_then (py_get_default operation ''data'' (JObj [])) (\<lambda>data.
         and_then (py_in ''attributes'' data) (\<lambda>has_attributes.
         and_then (if has_attributes then Inr True else py_in ''relationships'' data) (\<lambda>structured.
         and_then (if structured then and_then (parse_operation P data result) (\<lambda>d. Inr (JObj d))
                   else Inr data) (\<lambda>parsed_invoke_data.
         and_then (py_getitem ref ''type'') (\<lambda>ty.
         and_then (py_getitem ref ''href'') (\<lambda>href.
         and_then (parse_operation_metadata (parser_repr P) ref meta) (\<lambda>m.
           Inr ((OP_INVOKE,
                 JObj (dict_update [(JStr ''type'', ty), (JStr ''href'', href),
                                    (JStr ''data'', parsed_invoke_data)] m)), result)))))))))
       else
         and_then (if op_code = JStr OP_ADD then
                     and_then (py_get_default operation ''data'' (JObj [])) (\<lambda>d.
                     and_then (py_get d ''type'') is_bulk_operation_type)
                   else Inr False) (\<lambda>bulk.
         and_then (if bulk then py_getitem operation ''data''
                   else py_get_default operation ''data'' ref0) (\<lambda>data.
         and_then (parse_operation P data result) (\<lambda>parsed.
         and_then (parse_operation_metadata (parser_repr P) data meta) (\<lambda>m.
           (case op_code of
              JStr code \<Rightarrow> Inr ((code, JObj (dict_update parsed m)), result)
            | _ \<Rightarrow> Inl TypeError)))))))))"

fun parse_operations ::
  "json_parser \<Rightarrow> json \<Rightarrow> nat \<Rightarrow> json list \<Rightarrow> error + (string \<times> json) list" where
  "parse_operations P result idx [] = Inr []"
| "parse_operations P result idx (operation # rest) =
     and_then (parse_one P result idx operation) (\<lambda>(parsed, result').
     and_then (parse_operations P result' (Suc idx) rest) (\<lambda>parsed_rest.
       Inr (parsed # parsed_rest)))"

definition parse_data :: "json_parser \<Rightarrow> json \<Rightarrow> error + (string \<times> json) list" where
  "parse_data P result =
     and_then (check_root result) (\<lambda>operations. parse_operations P result 0 operations)"

section \<open>Lid substitution (views.py)\<close>

text \<open>
  \<open>lid_to_id\<close> is a \<^verbatim>\<open>defaultdict(dict)\<close>: reading a resource type that has no entry yields an
  empty dict, so the registry is a total function from resource types to dicts, keyed as
  \<open>dict_key\<close> hashes.
\<close>

type_synonym registry = "json \<Rightarrow> json \<rightharpoonup> json"

text \<open>
  The \<^verbatim>\<open>try\<close> block of \<open>substitute_lids\<close>: \<open>Inr (Some v)\<close> when \<^verbatim>\<open>data["id"]\<close> is to be set to
  \<open>v\<close>, \<open>Inr None\<close> when the lid is absent or falsy, \<open>Inl KeyError\<close> when the object has no
  \<open>type\<close> or the registry has no entry.
\<close>

definition lookup_lid :: "registry \<Rightarrow> (json \<times> json) list \<Rightarrow> error + json option" where
  "lookup_lid lid_to_id data =
     (let lid = dict_get data ''lid'' in
      if truthy lid then
        (case map_of data (JStr ''type'') of
           None \<Rightarrow> Inl KeyError
         | Some resource_type \<Rightarrow>
             and_then (dict_key resource_type) (\<lambda>t.
             and_then (dict_key lid) (\<lambda>l.
               case lid_to_id t l of None \<Rightarrow> Inl KeyError | Some v \<Rightarrow> Inr (Some v))))
      else Inr None)"

definition unknown_lid :: "nat \<Rightarrow> error" where
  "unknown_lid idx = UnprocessableEntity ''unknown-lid'' (operation_pointer idx @ ''/data/lid'')"

text \<open>
  \<open>substitute_lids\<close> changes \<open>data\<close> in place; the model returns the changed value. After
  the \<^verbatim>\<open>try\<close> block the members are walked in order: an object is substituted, the elements
  of a list are substituted (so an element that is itself a list is left alone). When the
  lid was resolved, the member \<open>id\<close> holds the registered id by then; ids are primary keys,
  that is scalars, and the walk leaves a scalar alone, so the model passes over the member
  \<open>id\<close> (\<open>skip_id\<close>) and writes the id afterwards.
\<close>

fun substitute_lids :: "registry \<Rightarrow> json \<Rightarrow> nat \<Rightarrow> bool \<Rightarrow> error + json"
  and substitute_members ::
    "registry \<Rightarrow> bool \<Rightarrow> (json \<times> json) list \<Rightarrow> nat \<Rightarrow> error + (json \<times> json) list"
  and substitute_elements :: "registry \<Rightarrow> json list \<Rightarrow> nat \<Rightarrow> error + json list"
where
  "substitute_lids lid_to_id (JObj data) idx should_raise_unknown_lid_error =
     (case lookup_lid lid_to_id data of
        Inr (Some v) \<Rightarrow>
          and_then (substitute_members lid_to_id True data idx)
            (\<lambda>data'. Inr (JObj (AList.update (JStr ''id'') v data')))
      | Inr None \<Rightarrow>
          and_then (substitute_members lid_to_id False data idx) (\<lambda>data'. Inr (JObj data'))
      | Inl KeyError \<Rightarrow>
          if should_raise_unknown_lid_error then Inl (unknown_lid idx)
          else and_then (substitute_members lid_to_id False data idx) (\<lambda>data'. Inr (JObj data'))
      | Inl e \<Rightarrow> Inl e)"
| "substitute_lids lid_to_id data idx should_raise_unknown_lid_error = Inr data"
| "substitute_members lid_to_id skip_id [] idx = Inr []"
| "substitute_members lid_to_id skip_id ((k, JObj v) # rest) idx =
     and_then (if skip_id \<and> k = JStr ''id'' then Inr (JObj v)
               else substitute_lids lid_to_id (JObj v) idx True) (\<lambda>v'.
     and_then (substitute_members lid_to_id skip_id rest idx) (\<lambda>rest'. Inr ((k, v') # rest')))"
| "substitute_members lid_to_id skip_id ((k, JList vs) # rest) idx =
     and_then (if skip_id \<and> k = JStr ''id'' then Inr vs
               else substitute_elements lid_to_id vs idx) (\<lambda>vs'.
     and_then (substitute_members lid_to_id skip_id rest idx) (\<lambda>rest'.
       Inr ((k, JList vs') # rest')))"
| "substitute_members lid_to_id skip_id ((k, v) # rest) idx =
     and_then (substitute_members lid_to_id skip_id rest idx) (\<lambda>rest'. Inr ((k, v) # rest'))"
| "substitute_elements lid_to_id [] idx = Inr []"
| "substitute_elements lid_to_id (v # vs) idx =
     and_then (substitute_lids lid_to_id v idx True) (\<lambda>v'.
     and_then (substitute_elements lid_to_id vs idx) (\<lambda>vs'. Inr (v' # vs')))"

text \<open>
  The objects that the walk of a payload visits below its top level: an object that is the
  value of a member, or an element of a list that is the value of a member, of the payload
  or of an object so visited. The member \<open>id\<close> is left out, since a resolved lid overwrites
  it before the walk.
\<close>

inductive nested :: "json \<Rightarrow> json \<Rightarrow> bool" where
  nested_member: "(k, JObj v) \<in> set data \<Longrightarrow> k \<noteq> JStr ''id'' \<Longrightarrow> nested (JObj v) (JObj data)"
| nested_element:
    "(k, JList vs) \<in> set data \<Longrightarrow> k \<noteq> JStr ''id'' \<Longrightarrow> JObj v \<in> set vs
     \<Longrightarrow> nested (JObj v) (JObj data)"
| nested_trans: "nested a b \<Longrightarrow> nested b c \<Longrightarrow> nested a c"

code_pred nested .

text \<open>
  The same objects by their place: a path leads from a payload to an object the walk
  visits, each step through a member whose value is an object, or through a member whose
  value is a list and an element of it that is an object. No step goes through the member
  \<open>id\<close>. The empty path is the payload itself.
\<close>

datatype step = Member json | Element json nat

fun descend :: "json \<Rightarrow> step list \<Rightarrow> json option" where
  "descend v [] = Some v"
| "descend (JObj data) (Member k # path) =
     (if k = JStr ''id'' then None
      else (case map_of data k of
              Some (JObj v) \<Rightarrow> descend (JObj v) path
            | _ \<Rightarrow> None))"
| "descend (JObj data) (Element k i # path) =
     (if k = JStr ''id'' then None
      else (case map_of data k of
              Some (JList vs) \<Rightarrow>
                (if i < length vs then
                   (case vs ! i of JObj v \<Rightarrow> descend (JObj v) path | _ \<Rightarrow> None)
                 else None)
            | _ \<Rightarrow> None))"
| "descend v (st # path) = None"

section \<open>The view (views.py)\<close>

text \<open>
  A serializer object as \<open>get_serializer\<close> builds it: its class (named by its key in
  \<open>serializer_classes\<close>), the \<open>data\<close> it was given, the instance it was given or has saved,
  and \<open>partial\<close>. A serializer built without \<open>data\<close> has no \<open>initial_data\<close>.
\<close>

record 'inst serializer =
  serializer_class :: string
  initial_data :: "json option"
  inst :: "'inst option"
  partial :: bool

text \<open>
  What a view subclass configures and what it calls outside this repository: the
  serializer classes and the \<open>sequential\<close> switch; the model manager
  (\<^verbatim>\<open>objects.get\<close>, \<^verbatim>\<open>bulk_create\<close>, \<^verbatim>\<open>filter(pk__in=...).delete()\<close>), the serializers
  (\<^verbatim>\<open>is_valid\<close>, \<^verbatim>\<open>save\<close>, \<^verbatim>\<open>data\<close>) and the instances (\<^verbatim>\<open>delete\<close>, \<^verbatim>\<open>pk\<close>), each a function
  of the store of type \<open>'st\<close> that may raise; and Python's \<^verbatim>\<open>repr\<close>. \<open>result_data\<close> is
  \<^verbatim>\<open>result.data\<close> when the saved result has that attribute. \<open>bulk_create\<close> stands for building
  one model instance from each serializer's validated data and the single
  \<^verbatim>\<open>objects.bulk_create\<close> call.
\<close>

record ('st, 'inst) handlers =
  serializer_classes :: "string list"
  sequential :: bool
  py_repr :: "json \<Rightarrow> string"
  objects_get :: "'st \<Rightarrow> string \<Rightarrow> json \<Rightarrow> error + 'inst"
  is_valid :: "'st \<Rightarrow> 'inst serializer \<Rightarrow> error + unit"
  save :: "'st \<Rightarrow> 'inst serializer \<Rightarrow> error + 'st \<times> 'inst"
  result_data :: "'inst \<Rightarrow> json option"
  serializer_data :: "'st \<Rightarrow> 'inst serializer \<Rightarrow> error + json"
  instance_delete :: "'st \<Rightarrow> 'inst \<Rightarrow> error + 'st"
  instance_pk :: "'inst \<Rightarrow> json"
  bulk_create :: "'st \<Rightarrow> string \<Rightarrow> 'inst serializer list \<Rightarrow> error + 'st \<times> 'inst list"
  filter_delete :: "'st \<Rightarrow> string \<Rightarrow> json list \<Rightarrow> error + 'st"

text \<open>
  The state a request works on: the data store, the registry \<open>lid_to_id\<close> (an attribute of
  the view class, which \<open>perform_operations\<close> does not reset), the response buffer and the
  buffered run of bulk mode (\<^verbatim>\<open>bulk_operation_data["serializer_collection"]\<close>).
\<close>

record ('st, 'inst) view =
  store :: 'st
  lid_to_id :: registry
  response_data :: "json list"
  serializer_collection :: "'inst serializer list"

text \<open>\<^verbatim>\<open>href.rstrip('/').split('/')[-1]\<close>; only a string has \<^verbatim>\<open>rstrip\<close>.\<close>

definition extract_action_from_href :: "json \<Rightarrow> error + string" where
  "extract_action_from_href href =
     (case href of
        JStr s \<Rightarrow>
          Inr (rev (takeWhile (\<lambda>c. c \<noteq> CHR ''/'') (dropWhile (\<lambda>c. c = CHR ''/'') (rev s))))
      | _ \<Rightarrow> Inl AttributeError)"

definition get_serializer_class ::
  "('st, 'inst) handlers \<Rightarrow> string \<Rightarrow> json \<Rightarrow> json \<Rightarrow> error + string" where
  "get_serializer_class H operation_code resource_type href =
     and_then
       (if operation_code = OP_INVOKE \<and> truthy href then
          and_then (extract_action_from_href href) (\<lambda>action.
            Inr (operation_code @ '':'' @ py_str (py_repr H) resource_type @ ''/'' @ action))
        else if operation_code = OP_ADD then
          and_then (is_bulk_operation_type resource_type) (\<lambda>_.
            Inr (operation_code @ '':'' @ py_str (py_repr H) resource_type))
        else Inr (operation_code @ '':'' @ py_str (py_repr H) resource_type))
       (\<lambda>key.
          if serializer_classes H = [] then Inl ImproperlyConfigured
          else if key \<in> set (serializer_classes H) then Inr key
          else Inl ImproperlyConfigured)"

definition get_serializer ::
  "('st, 'inst) handlers \<Rightarrow> 'st \<Rightarrow> nat \<Rightarrow> string \<Rightarrow> json \<Rightarrow> json \<Rightarrow> json \<Rightarrow> bool
     \<Rightarrow> error + 'inst serializer" where
  "get_serializer H st idx operation_code resource_type href data is_partial =
     and_then (get_serializer_class H operation_code resource_type href) (\<lambda>cls.
       if operation_code \<in> {OP_UPDATE, OP_REMOVE} then
         and_then (py_getitem data ''id'') (\<lambda>pk.
           case objects_get H st cls pk of
             Inl ObjectDoesNotExist \<Rightarrow>
               Inl (UnprocessableEntity ''object-does-not-exist''
                      (operation_pointer idx @ ''/data/id''))
           | Inl e \<Rightarrow> Inl e
           | Inr i \<Rightarrow>
               Inr \<lparr>serializer_class = cls, initial_data = Some data, inst = Some i,
                    partial = is_partial\<rparr>)
       else
         Inr \<lparr>serializer_class = cls, initial_data = Some data, inst = None,
              partial = is_partial\<rparr>)"

text \<open>\<^verbatim>\<open>serializer.is_valid(raise_exception=True); serializer.save()\<close>: the store after the
  save and the serializer holding the saved instance.\<close>

definition validate_and_save ::
  "('st, 'inst) handlers \<Rightarrow> 'inst serializer \<Rightarrow> 'st \<Rightarrow> error + 'st \<times> 'inst serializer" where
  "validate_and_save H serializer st =
     and_then (is_valid H st serializer) (\<lambda>_.
     and_then (save H st serializer) (\<lambda>(st', i).
       Inr (st', serializer\<lparr>inst := Some i\<rparr>)))"

text \<open>\<^verbatim>\<open>serializer.initial_data.get(k)\<close>\<close>

definition initial_data_get :: "'inst serializer \<Rightarrow> string \<Rightarrow> error + json" where
  "initial_data_get serializer k =
     (case initial_data serializer of None \<Rightarrow> Inl AttributeError | Some d \<Rightarrow> py_get d k)"

text \<open>
  The three parts of \<open>handle_sequential\<close> for an add, an update or a relationship update.
  \<open>save_bulk_type\<close> is the branch of an add whose resource type starts with \<open>bulk\<close>: it
  appends \<^verbatim>\<open>result.data\<close> or \<^verbatim>\<open>serializer.data\<close> and registers no lid. \<open>register_lid\<close> is
  \<^verbatim>\<open>self.lid_to_id[resource_type][lid] = serializer.data["id"]\<close>: the right-hand side is
  evaluated first, then the two keys are hashed. \<open>save_and_record\<close> is the other branch.
\<close>

definition save_bulk_type ::
  "('st, 'inst) handlers \<Rightarrow> 'inst serializer \<Rightarrow> ('st, 'inst) view \<Rightarrow> error + ('st, 'inst) view" where
  "save_bulk_type H serializer s =
     and_then (is_valid H (store s) serializer) (\<lambda>_.
     and_then (save H (store s) serializer) (\<lambda>(st', result).
     and_then (case result_data H result of
                 Some d \<Rightarrow> Inr d
               | None \<Rightarrow> serializer_data H st' (serializer\<lparr>inst := Some result\<rparr>)) (\<lambda>d.
       Inr (s\<lparr>store := st', response_data := response_data s @ [d]\<rparr>))))"

definition register_lid ::
  "('st, 'inst) handlers \<Rightarrow> 'st \<Rightarrow> 'inst serializer \<Rightarrow> json \<Rightarrow> json \<Rightarrow> registry
     \<Rightarrow> error + registry" where
  "register_lid H st serializer resource_type lid registry =
     and_then (serializer_data H st serializer) (\<lambda>d.
     and_then (py_getitem d ''id'') (\<lambda>new_id.
     and_then (dict_key resource_type) (\<lambda>t.
     and_then (dict_key lid) (\<lambda>l.
       Inr (registry(t := (registry t)(l \<mapsto> new_id)))))))"

definition save_and_record ::
  "('st, 'inst) handlers \<Rightarrow> 'inst serializer \<Rightarrow> string \<Rightarrow> json \<Rightarrow> json \<Rightarrow> ('st, 'inst) view
     \<Rightarrow> error + ('st, 'inst) view" where
  "save_and_record H serializer operation_code resource_type lid s =
     and_then (validate_and_save H serializer (store s)) (\<lambda>(st', serializer').
     and_then (if operation_code = OP_ADD \<and> truthy lid then
                 register_lid H st' serializer' resource_type lid (lid_to_id s)
               else Inr (lid_to_id s)) (\<lambda>registry'.
     and_then (if operation_code \<noteq> OP_UPDATE_RELATIONSHIP then
                 and_then (serializer_data H st' serializer') (\<lambda>d. Inr (response_data s @ [d]))
               else Inr (response_data s)) (\<lambda>response'.
       Inr (s\<lparr>store := st', lid_to_id := registry', response_data := response'\<rparr>))))"

definition handle_sequential ::
  "('st, 'inst) handlers \<Rightarrow> 'inst serializer \<Rightarrow> string \<Rightarrow> ('st, 'inst) view
     \<Rightarrow> error + ('st, 'inst) view" where
  "handle_sequential H serializer operation_code s =
     (if operation_code \<in> {OP_ADD, OP_UPDATE, OP_UPDATE_RELATIONSHIP} then
        and_then (initial_data_get serializer ''lid'') (\<lambda>lid.
        and_then (initial_data_get serializer ''type'') (\<lambda>resource_type.
        and_then (if operation_code = OP_ADD then is_bulk_operation_type resource_type
                  else Inr False) (\<lambda>bulk.
          if bulk then save_bulk_type H serializer s
          else save_and_record H serializer operation_code resource_type lid s)))
      else if operation_code = OP_REMOVE then
        (case inst serializer of
           None \<Rightarrow> Inl AttributeError
         | Some i \<Rightarrow> and_then (instance_delete H (store s) i) (\<lambda>st'. Inr (s\<lparr>store := st'\<rparr>)))
      else if operation_code = OP_INVOKE then
        and_then (validate_and_save H serializer (store s)) (\<lambda>(st', serializer').
        and_then (serializer_data H st' serializer') (\<lambda>d.
          Inr (s\<lparr>store := st', response_data := response_data s @ [d]\<rparr>)))
      else Inr s)"

text \<open>The loop of \<open>perform_bulk_create\<close>: every serializer is validated before anything
  is written.\<close>

fun validate_all :: "('st, 'inst) handlers \<Rightarrow> 'st \<Rightarrow> 'inst serializer list \<Rightarrow> error + unit" where
  "validate_all H st [] = Inr ()"
| "validate_all H st (serializer # rest) =
     and_then (is_valid H st serializer) (\<lambda>_. validate_all H st rest)"

text \<open>\<^verbatim>\<open>[_serializer.__class__(instance=obj).data for obj in objs]\<close>\<close>

fun represent_all ::
  "('st, 'inst) handlers \<Rightarrow> 'st \<Rightarrow> string \<Rightarrow> 'inst list \<Rightarrow> error + json list" where
  "represent_all H st cls [] = Inr []"
| "represent_all H st cls (obj # objs) =
     and_then (serializer_data H st
                 \<lparr>serializer_class = cls, initial_data = None, inst = Some obj, partial = False\<rparr>)
       (\<lambda>d. and_then (represent_all H st cls objs) (\<lambda>ds. Inr (d # ds)))"

text \<open>
  \<open>perform_bulk_create\<close> and \<open>perform_bulk_delete\<close> are called with a collection that holds
  at least the serializer just appended. After its loop, \<^verbatim>\<open>_serializer\<close> in
  \<open>perform_bulk_create\<close> is the last serializer of the collection.
\<close>

definition perform_bulk_create ::
  "('st, 'inst) handlers \<Rightarrow> ('st, 'inst) view \<Rightarrow> error + ('st, 'inst) view" where
  "perform_bulk_create H s =
     (let collection = serializer_collection s in
      and_then (validate_all H (store s) collection) (\<lambda>_.
      and_then (bulk_create H (store s) (serializer_class (hd collection)) collection) (\<lambda>(st', objs).
      and_then (represent_all H st' (serializer_class (last collection)) objs) (\<lambda>ds.
        Inr (s\<lparr>store := st', response_data := response_data s @ ds\<rparr>)))))"

text \<open>The loop of \<open>perform_bulk_delete\<close>: the primary keys and the representations, in
  order.\<close>

fun collect_deletions ::
  "('st, 'inst) handlers \<Rightarrow> 'st \<Rightarrow> 'inst serializer list \<Rightarrow> error + (json \<times> json) list" where
  "collect_deletions H st [] = Inr []"
| "collect_deletions H st (serializer # rest) =
     (case inst serializer of
        None \<Rightarrow> Inl AttributeError
      | Some i \<Rightarrow>
          and_then (serializer_data H st serializer) (\<lambda>d.
          and_then (collect_deletions H st rest) (\<lambda>ds. Inr ((instance_pk H i, d) # ds))))"

definition perform_bulk_delete ::
  "('st, 'inst) handlers \<Rightarrow> ('st, 'inst) view \<Rightarrow> error + ('st, 'inst) view" where
  "perform_bulk_delete H s =
     (let collection = serializer_collection s in
      and_then (collect_deletions H (store s) collection) (\<lambda>pairs.
      and_then (filter_delete H (store s) (serializer_class (hd collection)) (map fst pairs)) (\<lambda>st'.
        Inr (s\<lparr>store := st', response_data := response_data s @ map snd pairs\<rparr>))))"

text \<open>
  \<open>handle_bulk\<close> with \<^verbatim>\<open>bulk_operation_data["next_operation_code"]\<close> and
  \<^verbatim>\<open>["next_resource_type"]\<close> as arguments. The \<^verbatim>\<open>or\<close> reads \<^verbatim>\<open>serializer.initial_data["type"]\<close>
  only when the operation codes are equal. Resource types are compared with \<open>=\<close>, which is
  Python's \<^verbatim>\<open>!=\<close> negated whenever one side is a string.
\<close>

definition handle_bulk ::
  "('st, 'inst) handlers \<Rightarrow> 'inst serializer \<Rightarrow> string \<Rightarrow> string \<Rightarrow> json
     \<Rightarrow> ('st, 'inst) view \<Rightarrow> error + ('st, 'inst) view" where
  "handle_bulk H serializer current_operation_code next_operation_code next_resource_type s =
     (let s1 = s\<lparr>serializer_collection := serializer_collection s @ [serializer]\<rparr> in
      and_then
        (if next_operation_code \<noteq> current_operation_code then Inr True
         else
           (case initial_data serializer of
              None \<Rightarrow> Inl AttributeError
            | Some d \<Rightarrow> and_then (py_getitem d ''type'') (\<lambda>t. Inr (next_resource_type \<noteq> t))))
        (\<lambda>flush.
           if flush then
             and_then
               (if current_operation_code = ''add'' then perform_bulk_create H s1
                else if current_operation_code = ''delete'' then perform_bulk_delete H s1
                else handle_sequential H (hd (serializer_collection s1)) current_operation_code s1)
               (\<lambda>s2. Inr (s2\<lparr>serializer_collection := []\<rparr>))
           else Inr s1))"

text \<open>
  One round of the loop of \<open>perform_operations\<close>, for the operation at index \<open>idx\<close> and the
  operations \<open>rest\<close> that follow it (the round is the last one when \<open>rest\<close> is empty). A
  parsed operation is the pair of its code and its payload.
\<close>

definition perform_operation ::
  "('st, 'inst) handlers \<Rightarrow> nat \<Rightarrow> string \<times> json \<Rightarrow> (string \<times> json) list
     \<Rightarrow> ('st, 'inst) view \<Rightarrow> error + ('st, 'inst) view" where
  "perform_operation H idx operation rest s =
     (let operation_code = fst operation in
      and_then (substitute_lids (lid_to_id s) (snd operation) idx (operation_code \<noteq> OP_ADD)) (\<lambda>obj.
      and_then (if operation_code = OP_INVOKE then py_get obj ''href'' else Inr JNull) (\<lambda>href.
      and_then (if operation_code = OP_INVOKE then py_get_default obj ''data'' obj
                else Inr obj) (\<lambda>data.
      and_then (py_getitem obj ''type'') (\<lambda>resource_type.
      and_then (get_serializer H (store s) idx
                  (if operation_code = OP_UPDATE_RELATIONSHIP then OP_UPDATE else operation_code)
                  resource_type href data
                  (operation_code \<in> {OP_UPDATE, OP_UPDATE_RELATIONSHIP})) (\<lambda>serializer.
        if sequential H then handle_sequential H serializer operation_code s
        else
          and_then
            (case rest of
               [] \<Rightarrow> Inr ([], JStr [])
             | next_operation # _ \<Rightarrow>
                 and_then (py_getitem (snd next_operation) ''type'') (\<lambda>t.
                   Inr (fst next_operation, t)))
            (\<lambda>(next_operation_code, next_resource_type).
               handle_bulk H serializer operation_code next_operation_code next_resource_type s)))))))"

text \<open>
  The \<^verbatim>\<open>for\<close> loop. An exception ends it, and the state returned with the exception is
  the one before the failing round: a round writes the registry only after everything in
  it that may raise, what it wrote to the store is rolled back by \<open>atomic\<close>, and the
  response buffer of a failed request is never read.
\<close>

fun perform_loop ::
  "('st, 'inst) handlers \<Rightarrow> nat \<Rightarrow> (string \<times> json) list \<Rightarrow> ('st, 'inst) view
     \<Rightarrow> ('st, 'inst) view \<times> error option" where
  "perform_loop H idx [] s = (s, None)"
| "perform_loop H idx (operation # rest) s =
     (case perform_operation H idx operation rest s of
        Inl e \<Rightarrow> (s, Some e)
      | Inr s' \<Rightarrow> perform_loop H (Suc idx) rest s')"

text \<open>
  Django's \<^verbatim>\<open>transaction.atomic()\<close>, by its documented contract: the writes of the block are
  committed when it ends normally and rolled back when an exception leaves it. Only the
  store is transactional.
\<close>

definition atomic :: "'st \<Rightarrow> ('st, 'inst) view \<times> error option \<Rightarrow> ('st, 'inst) view \<times> error option" where
  "atomic st0 outcome =
     (case outcome of
        (s, None) \<Rightarrow> (s, None)
      | (s, Some e) \<Rightarrow> (s\<lparr>store := st0\<rparr>, Some e))"

text \<open>\<^verbatim>\<open>Response(self.response_data, status=...)\<close>: the body and the status.\<close>

datatype response = Response "json list" nat

text \<open>
  \<open>perform_operations\<close> for one request: the registry of the view class and the store as
  the request finds them, and as it leaves them, with the response or the exception.
\<close>

definition perform_operations ::
  "('st, 'inst) handlers \<Rightarrow> registry \<Rightarrow> 'st \<Rightarrow> (string \<times> json) list
     \<Rightarrow> (error + response) \<times> registry \<times> 'st" where
  "perform_operations H registry st parsed_operations =
     (let s0 = \<lparr>store = st, lid_to_id = registry, response_data = [], serializer_collection = []\<rparr>;
          (s, raised) = atomic st (perform_loop H 0 parsed_operations s0)
      in (case raised of
            Some e \<Rightarrow> Inl e
          | None \<Rightarrow> Inr (Response (response_data s) (if response_data s \<noteq> [] then 200 else 204)),
          lid_to_id s, store s))"

section \<open>An example configuration\<close>

text \<open>
  A view subclass over one table of articles, for the concrete runs below. A row is a
  primary key with a title; a created row gets the next number as its key. Validation
  wants a \<open>title\<close> unless the serializer is partial. \<open>example_parser\<close> reads the members of
  \<open>attributes\<close> and the \<open>data\<close> of each relationship, as the JSON:API library does without
  field-name formatting.
\<close>

type_synonym article = "json \<times> json"

definition title_of :: "article serializer \<Rightarrow> json option" where
  "title_of serializer =
     (case initial_data serializer of Some (JObj d) \<Rightarrow> map_of d (JStr ''title'') | _ \<Rightarrow> None)"

definition new_article :: "article list \<Rightarrow> article serializer \<Rightarrow> article" where
  "new_article st serializer =
     (JNum (int (length st) + 1), case title_of serializer of None \<Rightarrow> JNull | Some t \<Rightarrow> t)"

fun new_articles :: "article list \<Rightarrow> article serializer list \<Rightarrow> article list" where
  "new_articles st [] = []"
| "new_articles st (serializer # rest) =
     new_article st serializer # new_articles (st @ [new_article st serializer]) rest"

definition article_handlers :: "bool \<Rightarrow> (article list, article) handlers" where
  "article_handlers seq =
     \<lparr>serializer_classes =
        [''add:articles'', ''update:articles'', ''remove:articles'', ''add:bulkArticles''],
      sequential = seq,
      py_repr = (\<lambda>v. []),
      objects_get = (\<lambda>st cls pk.
        case map_of st pk of None \<Rightarrow> Inl ObjectDoesNotExist | Some t \<Rightarrow> Inr (pk, t)),
      is_valid = (\<lambda>st serializer.
        if partial serializer \<or> title_of serializer \<noteq> None then Inr ()
        else Inl ValidationError),
      save = (\<lambda>st serializer.
        case inst serializer of
          Some (pk, t) \<Rightarrow>
            (let t' = (case title_of serializer of None \<Rightarrow> t | Some new \<Rightarrow> new)
             in Inr (AList.update pk t' st, (pk, t')))
        | None \<Rightarrow> Inr (st @ [new_article st serializer], new_article st serializer)),
      result_data = (\<lambda>i. None),
      serializer_data = (\<lambda>st serializer.
        case inst serializer of
          Some (pk, t) \<Rightarrow> Inr (JObj [(JStr ''id'', pk), (JStr ''title'', t)])
        | None \<Rightarrow> Inl AttributeError),
      instance_delete = (\<lambda>st i. Inr (AList.delete (fst i) st)),
      instance_pk = fst,
      bulk_create = (\<lambda>st cls collection.
        Inr (st @ new_articles st collection, new_articles st collection)),
      filter_delete = (\<lambda>st cls pks. Inr (filter (\<lambda>row. fst row \<notin> set pks) st))\<rparr>"

definition example_parser :: json_parser where
  "example_parser =
     \<lparr>parse_attributes = (\<lambda>d.
        and_then (py_get d ''attributes'') (\<lambda>a. case a of JObj ms \<Rightarrow> Inr ms | _ \<Rightarrow> Inr [])),
      parse_relationships = (\<lambda>d.
        and_then (py_get d ''relationships'') (\<lambda>r.
          case r of
            JObj ms \<Rightarrow> Inr (map (\<lambda>(name, v). (name, case py_get v ''data'' of Inr x \<Rightarrow> x | Inl e \<Rightarrow> JNull)) ms)
          | _ \<Rightarrow> Inr [])),
      parse_metadata = (\<lambda>d. Inr []),
      parser_repr = (\<lambda>v. [])\<rparr>"

text \<open>
  A view subclass over a table of comments, for the run of a relationship update. A row
  is a primary key with the comment's \<open>author\<close> relation, a resource identifier or null; an
  update writes the \<open>author\<close> it is given.
\<close>

type_synonym comment = "json \<times> json"

definition comment_handlers :: "bool \<Rightarrow> (comment list, comment) handlers" where
  "comment_handlers seq =
     \<lparr>serializer_classes = [''update:comments''],
      sequential = seq,
      py_repr = (\<lambda>v. []),
      objects_get = (\<lambda>st cls pk.
        case map_of st pk of None \<Rightarrow> Inl ObjectDoesNotExist | Some a \<Rightarrow> Inr (pk, a)),
      is_valid = (\<lambda>st serializer. if partial serializer then Inr () else Inl ValidationError),
      save = (\<lambda>st serializer.
        case (inst serializer, initial_data serializer) of
          (Some (pk, a), Some (JObj d)) \<Rightarrow>
            (let a' = (case map_of d (JStr ''author'') of None \<Rightarrow> a | Some new \<Rightarrow> new)
             in Inr (AList.update pk a' st, (pk, a')))
        | _ \<Rightarrow> Inl ValidationError),
      result_data = (\<lambda>i. None),
      serializer_data = (\<lambda>st serializer.
        case inst serializer of
          Some (pk, a) \<Rightarrow> Inr (JObj [(JStr ''id'', pk), (JStr ''author'', a)])
        | None \<Rightarrow> Inl AttributeError),
      instance_delete = (\<lambda>st i. Inr (AList.delete (fst i) st)),
      instance_pk = fst,
      bulk_create = (\<lambda>st cls collection. Inl ValidationError),
      filter_delete = (\<lambda>st cls pks. Inr (filter (\<lambda>row. fst row \<notin> set pks) st))\<rparr>"

section \<open>Properties\<close>

lemma and_then_simps [simp]:
  "and_then (Inl e) f = Inl e"
  "and_then (Inr x) f = f x"
  by (simp_all add: and_then_def)

lemma string_of_nat_digit: "n < 10 \<Longrightarrow> string_of_nat n = [''0123456789'' ! n]"
  by (simp add: string_of_nat.simps)

lemma operation_pointer_0: "operation_pointer 0 = ''/atomic:operations/0''"
  by (simp add: operation_pointer_def ATOMIC_OPERATIONS_def string_of_nat_digit)

lemma operation_pointer_1: "operation_pointer (Suc 0) = ''/atomic:operations/1''"
  by (simp add: operation_pointer_def ATOMIC_OPERATIONS_def string_of_nat_digit)

subsection \<open>The parser's checks\<close>




text \<open>
  C8, as amended. An operation whose code is truthy and is not \<open>invoke\<close>, and whose \<open>href\<close>
  member is truthy, fails with \<open>not-implemented\<close> at \<open>/atomic:operations/idx/href\<close>, whatever
  its other members are.
\<close>

theorem href_not_implemented:
  assumes "truthy (dict_get operation ''op'')"
      and "dict_get operation ''op'' \<noteq> JStr OP_INVOKE"
      and "truthy (dict_get operation ''href'')"
  shows "check_operation idx (JObj operation) =
           Inl (JsonApiParseError ''not-implemented'' (operation_pointer idx @ ''/href''))"
  using assms by (simp add: check_operation_def)

theorem href_not_implemented_witness:
  "check_operation 0 (JObj [(JStr ''op'', JStr ''remove''), (JStr ''href'', JStr ''/articles/1'')])
     = Inl (JsonApiParseError ''not-implemented'' ''/atomic:operations/0/href'')"
  using href_not_implemented [of "[(JStr ''op'', JStr ''remove''), (JStr ''href'', JStr ''/articles/1'')]" 0]
  by (simp add: dict_get_def operation_pointer_0 OP_INVOKE_def)

text \<open>
  C8 as stated fails: the add below has an \<open>href\<close> member, the empty string, and passes
  \<open>check_operation\<close>.
\<close>

theorem empty_href_accepted:
  "map_of [(JStr ''op'', JStr ''add''), (JStr ''href'', JStr []),
           (JStr ''data'', JObj [(JStr ''type'', JStr ''articles'')])] (JStr ''href'') \<noteq> None
   \<and> check_operation 0
       (JObj [(JStr ''op'', JStr ''add''), (JStr ''href'', JStr []),
              (JStr ''data'', JObj [(JStr ''type'', JStr ''articles'')])]) = Inr ()"
  by (simp add: check_operation_def check_add_operation_def check_resource_identifier_object_def
        OP_ADD_def OP_INVOKE_def dict_get_def)

text \<open>
  Every pointer of \<open>parse_operation_metadata\<close> starts with the operations key, not with a
  slash.
\<close>

lemma metadata_idx_errors:
  "metadata_idx resource_identifier_object = Inl e \<Longrightarrow> e = TypeError \<or> e = AttributeError"
  by (cases resource_identifier_object) (auto simp add: metadata_idx_def split: if_splits)

lemma parse_operation_metadata_pointer:
  assumes "parse_operation_metadata repr resource_identifier_object metadata =
             Inl (JsonApiParseError i p)"
  shows "take 18 p = ''atomic:operations/''"
  using assms metadata_idx_errors [of resource_identifier_object "JsonApiParseError i p"]
  by (auto simp add: parse_operation_metadata_def ATOMIC_OPERATIONS_def and_then_def
           split: if_splits sum.splits json.splits)

text \<open>
  C9, at the failing input: an add of the article with id \<open>13\<close> whose \<open>meta\<close> is a string. The
  pointer of \<open>invalid-operation-meta-object\<close> has no leading slash and holds the resource's
  id where the operation's index belongs; \<open>parse_operation_metadata\<close> is not given the index.
\<close>

theorem meta_pointer_without_index:
  "parse_operation_metadata repr
     (JObj [(JStr ''type'', JStr ''articles''), (JStr ''id'', JStr ''13'')]) (JStr ''x'')
   = Inl (JsonApiParseError ''invalid-operation-meta-object'' ''atomic:operations/13/meta'')"
  by (simp add: parse_operation_metadata_def metadata_idx_def ATOMIC_OPERATIONS_def dict_get_def)

subsection \<open>Lid substitution\<close>

lemma lookup_lid_no_type:
  "truthy (dict_get data ''lid'') \<Longrightarrow> map_of data (JStr ''type'') = None
   \<Longrightarrow> lookup_lid reg data = Inl KeyError"
  by (simp add: lookup_lid_def)

lemma substitute_no_type:
  "truthy (dict_get data ''lid'') \<Longrightarrow> map_of data (JStr ''type'') = None \<Longrightarrow>
   substitute_lids reg (JObj data) idx True = Inl (unknown_lid idx)"
  by (simp add: lookup_lid_no_type)

lemma lookup_lid_errors: "lookup_lid reg data = Inl e \<Longrightarrow> e = KeyError \<or> e = TypeError"
  apply (auto simp add: lookup_lid_def Let_def and_then_def
              split: if_splits option.splits sum.splits)
   apply (cases "the (map_of data (JStr ''type''))"; auto)
  apply (cases "dict_get data ''lid''"; auto)
  done

text \<open>Lid substitution raises nothing but \<open>unknown-lid\<close> and \<^verbatim>\<open>TypeError\<close>.\<close>

lemma substitute_errors:
  "(substitute_lids reg d idx b = Inl e \<longrightarrow> e = unknown_lid idx \<or> e = TypeError)"
  "(substitute_members reg skip ms idx = Inl e \<longrightarrow> e = unknown_lid idx \<or> e = TypeError)"
  "(substitute_elements reg vs idx = Inl e \<longrightarrow> e = unknown_lid idx \<or> e = TypeError)"
proof (induction reg d idx b and reg skip ms idx and reg vs idx
       rule: substitute_lids_substitute_members_substitute_elements.induct)
  case (1 lid_to_id data idx should_raise)
  then show ?case
    using lookup_lid_errors[of lid_to_id data]
    by (auto simp add: and_then_def split: sum.splits option.splits error.splits if_splits)
qed (auto simp add: and_then_def split: sum.splits if_splits)

lemma members_fail_member:
  "(k, JObj v) \<in> set ms \<Longrightarrow> \<not> (skip \<and> k = JStr ''id'') \<Longrightarrow> isl (substitute_lids reg (JObj v) idx True)
   \<Longrightarrow> isl (substitute_members reg skip ms idx)"
proof (induction ms)
  case Nil
  then show ?case by simp
next
  case (Cons m ms)
  obtain k' v' where m: "m = (k', v')" by (cases m)
  show ?case
    using Cons m
    by (cases v'; cases "substitute_members reg skip ms idx")
       (auto simp add: and_then_def simp del: substitute_lids.simps(1) split: sum.splits)
qed

lemma elements_fail:
  "JObj v \<in> set vs \<Longrightarrow> isl (substitute_lids reg (JObj v) idx True)
   \<Longrightarrow> isl (substitute_elements reg vs idx)"
proof (induction vs)
  case Nil
  then show ?case by simp
next
  case (Cons x xs)
  then show ?case
    by (cases "substitute_elements reg xs idx")
       (auto simp add: and_then_def simp del: substitute_lids.simps(1) split: sum.splits)
qed

lemma members_fail_element:
  "(k, JList vs) \<in> set ms \<Longrightarrow> \<not> (skip \<and> k = JStr ''id'') \<Longrightarrow> isl (substitute_elements reg vs idx)
   \<Longrightarrow> isl (substitute_members reg skip ms idx)"
proof (induction ms)
  case Nil
  then show ?case by simp
next
  case (Cons m ms)
  obtain k' v' where m: "m = (k', v')" by (cases m)
  show ?case
    using Cons m
    by (cases v'; cases "substitute_members reg skip ms idx")
       (auto simp add: and_then_def simp del: substitute_lids.simps(1) split: sum.splits)
qed

lemma members_fail_object:
  assumes "isl (substitute_members reg False data idx)" "isl (substitute_members reg True data idx)"
  shows "isl (substitute_lids reg (JObj data) idx b)"
proof (cases "lookup_lid reg data")
  case (Inl e)
  then show ?thesis using assms by (cases e) (auto simp add: isl_def)
next
  case (Inr r)
  then show ?thesis using assms by (cases r) (auto simp add: isl_def)
qed

lemma nested_fails:
  "nested inner outer \<Longrightarrow> isl (substitute_lids reg inner idx True)
   \<Longrightarrow> isl (substitute_lids reg outer idx b)"
proof (induction arbitrary: b rule: nested.induct)
  case (nested_member k v data)
  have "isl (substitute_members reg skip data idx)" for skip
    using nested_member by (intro members_fail_member[of k v]) simp_all
  then show ?case by (intro members_fail_object)
next
  case (nested_element k vs data v)
  have "isl (substitute_elements reg vs idx)"
    using nested_element by (intro elements_fail[of v]) simp_all
  then have "isl (substitute_members reg skip data idx)" for skip
    using nested_element by (intro members_fail_element[of k vs]) simp_all
  then show ?case by (intro members_fail_object)
next
  case (nested_trans a b c)
  then show ?case by blast
qed




subsection \<open>The rounds of the loop\<close>

lemma and_then_Inr_iff: "(and_then r f = Inr y) = (\<exists>x. r = Inr x \<and> f x = Inr y)"
  by (cases r) simp_all

lemmas op_defs = OP_ADD_def OP_UPDATE_def OP_REMOVE_def OP_INVOKE_def OP_UPDATE_RELATIONSHIP_def

lemma save_bulk_type_effect:
  assumes "save_bulk_type H serializer s = Inr s'"
  shows "(\<exists>d. response_data s' = response_data s @ [d])
       \<and> serializer_collection s' = serializer_collection s \<and> lid_to_id s' = lid_to_id s"
  using assms
  by (auto simp add: save_bulk_type_def and_then_Inr_iff split: prod.splits)

lemma save_and_record_effect:
  assumes "save_and_record H serializer operation_code resource_type lid s = Inr s'"
  shows "(\<exists>new. response_data s' = response_data s @ new
            \<and> length new = (if operation_code = OP_UPDATE_RELATIONSHIP then 0 else 1))
       \<and> serializer_collection s' = serializer_collection s"
  using assms
  by (auto simp add: save_and_record_def and_then_Inr_iff split: prod.splits if_splits)

lemma handle_sequential_saving:
  assumes "operation_code \<in> {OP_ADD, OP_UPDATE, OP_UPDATE_RELATIONSHIP}"
      and "handle_sequential H serializer operation_code s = Inr s'"
  shows "(operation_code = OP_ADD \<and> save_bulk_type H serializer s = Inr s'
          \<and> (\<exists>resource_type. initial_data_get serializer ''type'' = Inr resource_type
                \<and> is_bulk_operation_type resource_type = Inr True))
       \<or> (\<exists>resource_type lid.
             initial_data_get serializer ''type'' = Inr resource_type
           \<and> initial_data_get serializer ''lid'' = Inr lid
           \<and> (operation_code = OP_ADD \<longrightarrow> is_bulk_operation_type resource_type = Inr False)
           \<and> save_and_record H serializer operation_code resource_type lid s = Inr s')"
proof -
  from assms obtain lid where
    1: "initial_data_get serializer ''lid'' = Inr lid"
    and 2: "and_then (initial_data_get serializer ''type'') (\<lambda>resource_type.
        and_then (if operation_code = OP_ADD then is_bulk_operation_type resource_type
                  else Inr False) (\<lambda>bulk.
          if bulk then save_bulk_type H serializer s
          else save_and_record H serializer operation_code resource_type lid s)) = Inr s'"
    unfolding handle_sequential_def
    by (simp only: if_True) (simp only: and_then_Inr_iff, blast)
  from 2 obtain resource_type where
    3: "initial_data_get serializer ''type'' = Inr resource_type"
    and 4: "and_then (if operation_code = OP_ADD then is_bulk_operation_type resource_type
                  else Inr False) (\<lambda>bulk.
          if bulk then save_bulk_type H serializer s
          else save_and_record H serializer operation_code resource_type lid s) = Inr s'"
    by (simp only: and_then_Inr_iff) blast
  from 4 obtain bulk where
    5: "(if operation_code = OP_ADD then is_bulk_operation_type resource_type
                  else Inr False) = Inr bulk"
    and 6: "(if bulk then save_bulk_type H serializer s
          else save_and_record H serializer operation_code resource_type lid s) = Inr s'"
    by (simp only: and_then_Inr_iff) blast
  show ?thesis
  proof (cases bulk)
    case True
    with 5 have "operation_code = OP_ADD" "is_bulk_operation_type resource_type = Inr True"
      by (auto split: if_splits)
    with True 6 3 show ?thesis by auto
  next
    case False
    with 5 have "operation_code = OP_ADD \<longrightarrow> is_bulk_operation_type resource_type = Inr False"
      by (auto split: if_splits)
    with False 6 1 3 show ?thesis by auto
  qed
qed

lemma handle_sequential_effect:
  assumes "handle_sequential H serializer operation_code s = Inr s'"
  shows "(\<exists>new. response_data s' = response_data s @ new
            \<and> length new = (if operation_code \<in> {OP_ADD, OP_UPDATE, OP_INVOKE} then 1 else 0))
       \<and> serializer_collection s' = serializer_collection s"
proof -
  consider (saving) "operation_code \<in> {OP_ADD, OP_UPDATE, OP_UPDATE_RELATIONSHIP}"
    | (remove) "operation_code = OP_REMOVE"
    | (invoke) "operation_code = OP_INVOKE"
    | (other) "operation_code \<notin> {OP_ADD, OP_UPDATE, OP_UPDATE_RELATIONSHIP, OP_REMOVE, OP_INVOKE}"
    by blast
  then show ?thesis
  proof cases
    case saving
    from handle_sequential_saving[OF saving assms] show ?thesis
    proof (elim disjE exE conjE)
      assume "operation_code = OP_ADD" "save_bulk_type H serializer s = Inr s'"
      with save_bulk_type_effect[of H serializer s s'] show ?thesis
        by (auto simp add: op_defs)
    next
      fix resource_type lid
      assume "save_and_record H serializer operation_code resource_type lid s = Inr s'"
      with saving save_and_record_effect[of H serializer operation_code resource_type lid s s']
      show ?thesis by (auto simp add: op_defs)
    qed
  next
    case remove
    with assms show ?thesis
      by (auto simp add: handle_sequential_def op_defs and_then_Inr_iff split: option.splits)
  next
    case invoke
    with assms show ?thesis
      by (auto simp add: handle_sequential_def op_defs and_then_Inr_iff validate_and_save_def
               split: prod.splits)
  next
    case other
    with assms show ?thesis by (auto simp add: handle_sequential_def)
  qed
qed

lemma get_serializer_initial_data:
  assumes "get_serializer H st idx operation_code resource_type href data is_partial = Inr serializer"
  shows "initial_data serializer = Some data"
proof -
  from assms obtain cls where
    c: "(if operation_code \<in> {OP_UPDATE, OP_REMOVE} then
         and_then (py_getitem data ''id'') (\<lambda>pk.
           case objects_get H st cls pk of
             Inl ObjectDoesNotExist \<Rightarrow>
               Inl (UnprocessableEntity ''object-does-not-exist''
                      (operation_pointer idx @ ''/data/id''))
           | Inl e \<Rightarrow> Inl e
           | Inr i \<Rightarrow>
               Inr \<lparr>serializer_class = cls, initial_data = Some data, inst = Some i,
                    partial = is_partial\<rparr>)
       else
         Inr \<lparr>serializer_class = cls, initial_data = Some data, inst = None,
              partial = is_partial\<rparr>) = Inr serializer"
    unfolding get_serializer_def by (simp only: and_then_Inr_iff) blast
  show ?thesis
  proof (cases "operation_code \<in> {OP_UPDATE, OP_REMOVE}")
    case False
    with c show ?thesis by auto
  next
    case True
    with c obtain pk where
      p: "(case objects_get H st cls pk of
             Inl ObjectDoesNotExist \<Rightarrow>
               Inl (UnprocessableEntity ''object-does-not-exist''
                      (operation_pointer idx @ ''/data/id''))
           | Inl e \<Rightarrow> Inl e
           | Inr i \<Rightarrow>
               Inr \<lparr>serializer_class = cls, initial_data = Some data, inst = Some i,
                    partial = is_partial\<rparr>) = Inr serializer"
      by (simp only: if_True and_then_Inr_iff) blast
    show ?thesis
    proof (cases "objects_get H st cls pk")
      case (Inl e)
      with p show ?thesis by (cases e) simp_all
    next
      case (Inr i)
      with p show ?thesis by auto
    qed
  qed
qed

lemma perform_operation_sequential:
  assumes "sequential H"
      and "perform_operation H idx operation rest s = Inr s'"
  shows "\<exists>obj serializer.
           substitute_lids (lid_to_id s) (snd operation) idx (fst operation \<noteq> OP_ADD) = Inr obj
         \<and> (fst operation \<noteq> OP_INVOKE \<longrightarrow> initial_data serializer = Some obj)
         \<and> handle_sequential H serializer (fst operation) s = Inr s'"
proof -
  from assms(2) obtain obj href data resource_type serializer where
    1: "substitute_lids (lid_to_id s) (snd operation) idx (fst operation \<noteq> OP_ADD) = Inr obj"
    and 2: "(if fst operation = OP_INVOKE then py_get_default obj ''data'' obj else Inr obj) = Inr data"
    and 3: "get_serializer H (store s) idx
              (if fst operation = OP_UPDATE_RELATIONSHIP then OP_UPDATE else fst operation)
              resource_type href data
              (fst operation \<in> {OP_UPDATE, OP_UPDATE_RELATIONSHIP}) = Inr serializer"
    and 4: "(if sequential H then handle_sequential H serializer (fst operation) s
        else
          and_then
            (case rest of
               [] \<Rightarrow> Inr ([], JStr [])
             | next_operation # _ \<Rightarrow>
                 and_then (py_getitem (snd next_operation) ''type'') (\<lambda>t.
                   Inr (fst next_operation, t)))
            (\<lambda>(next_operation_code, next_resource_type).
               handle_bulk H serializer (fst operation) next_operation_code next_resource_type s)) = Inr s'"
    unfolding perform_operation_def Let_def
    by (simp only: and_then_Inr_iff) blast
  from 2 have "fst operation \<noteq> OP_INVOKE \<longrightarrow> data = obj" by (auto split: if_splits)
  with get_serializer_initial_data[OF 3] 1 4 assms(1) show ?thesis by auto
qed

lemma perform_operation_rest:
  "sequential H \<Longrightarrow> perform_operation H idx operation rest s = perform_operation H idx operation [] s"
  by (simp add: perform_operation_def)

lemma perform_operation_response:
  assumes "sequential H" and "perform_operation H idx operation rest s = Inr s'"
  shows "\<exists>new. response_data s' = response_data s @ new
           \<and> length new = (if fst operation \<in> {OP_ADD, OP_UPDATE, OP_INVOKE} then 1 else 0)"
  using perform_operation_sequential[OF assms] handle_sequential_effect by blast

lemma perform_loop_response:
  assumes "sequential H"
  shows "perform_loop H idx ops s = (s', None) \<Longrightarrow>
         \<exists>new. response_data s' = response_data s @ new
           \<and> length new = length (filter (\<lambda>op. fst op \<in> {OP_ADD, OP_UPDATE, OP_INVOKE}) ops)"
proof (induction ops arbitrary: idx s)
  case Nil
  then show ?case by simp
next
  case (Cons op ops)
  show ?case
  proof (cases "perform_operation H idx op ops s")
    case (Inl e)
    with Cons.prems show ?thesis by simp
  next
    case (Inr s1)
    with Cons.prems have "perform_loop H (Suc idx) ops s1 = (s', None)" by simp
    from Cons.IH[OF this] obtain new where
      n: "response_data s' = response_data s1 @ new"
         "length new = length (filter (\<lambda>op. fst op \<in> {OP_ADD, OP_UPDATE, OP_INVOKE}) ops)"
      by blast
    from perform_operation_response[OF assms Inr] obtain new1 where
      m: "response_data s1 = response_data s @ new1"
         "length new1 = (if fst op \<in> {OP_ADD, OP_UPDATE, OP_INVOKE} then 1 else 0)"
      by blast
    from n m have "response_data s' = response_data s @ (new1 @ new)" by simp
    moreover from n m have "length (new1 @ new) =
       length (filter (\<lambda>op. fst op \<in> {OP_ADD, OP_UPDATE, OP_INVOKE}) (op # ops))"
      by simp
    ultimately show ?thesis by blast
  qed
qed

lemma perform_loop_append:
  assumes "sequential H"
  shows "perform_loop H idx (xs @ ys) s =
         (case perform_loop H idx xs s of
            (s1, None) \<Rightarrow> perform_loop H (idx + length xs) ys s1
          | (s1, Some e) \<Rightarrow> (s1, Some e))"
proof (induction xs arbitrary: idx s)
  case Nil
  then show ?case by simp
next
  case (Cons x xs)
  have "perform_operation H idx x (xs @ ys) s = perform_operation H idx x xs s"
    using perform_operation_rest[OF assms, of idx x "xs @ ys" s]
          perform_operation_rest[OF assms, of idx x xs s] by simp
  then show ?case
    by (cases "perform_operation H idx x xs s")
       (auto simp add: Cons.IH split: prod.splits option.splits)
qed

lemma perform_operations_succeeds:
  "(perform_operations H reg st ops = (Inr (Response body status), reg', st')) =
   (\<exists>s. perform_loop H 0 ops
           \<lparr>store = st, lid_to_id = reg, response_data = [], serializer_collection = []\<rparr>
         = (s, None)
       \<and> body = response_data s \<and> status = (if response_data s \<noteq> [] then 200 else 204)
       \<and> reg' = lid_to_id s \<and> st' = store s)"
  by (cases "perform_loop H 0 ops
           \<lparr>store = st, lid_to_id = reg, response_data = [], serializer_collection = []\<rparr>")
     (auto simp add: perform_operations_def atomic_def Let_def split: option.splits)

subsection \<open>The response list\<close>

text \<open>
  C4, as amended. In sequential mode, when every operation of a batch succeeds, the
  response list has exactly one entry for each operation whose code is \<open>add\<close>, \<open>update\<close> or
  \<open>invoke\<close>, and none for an \<open>update-relationship\<close> or a \<open>remove\<close>. The entries are in the
  order of the operations: the batch cut after any operation succeeds too, and its
  response list, with one entry for each such operation before the cut, starts the
  response list of the whole batch.
\<close>

theorem response_entries:
  assumes "sequential H"
      and "perform_operations H reg st (xs @ ys) = (Inr (Response body status), reg', st')"
  shows "length body = length (filter (\<lambda>op. fst op \<in> {OP_ADD, OP_UPDATE, OP_INVOKE}) (xs @ ys))
       \<and> (\<exists>body_xs status_xs reg_xs st_xs.
             perform_operations H reg st xs = (Inr (Response body_xs status_xs), reg_xs, st_xs)
           \<and> length body_xs = length (filter (\<lambda>op. fst op \<in> {OP_ADD, OP_UPDATE, OP_INVOKE}) xs)
           \<and> take (length body_xs) body = body_xs)"
proof -
  let ?s0 = "\<lparr>store = st, lid_to_id = reg, response_data = [], serializer_collection = []\<rparr>"
  from assms(2) obtain s where
    s: "perform_loop H 0 (xs @ ys) ?s0 = (s, None)" and body: "body = response_data s"
    by (auto simp add: perform_operations_succeeds)
  obtain s1 r1 where l1: "perform_loop H 0 xs ?s0 = (s1, r1)"
    by (cases "perform_loop H 0 xs ?s0")
  with s perform_loop_append[OF assms(1), of 0 xs ys ?s0]
  have r1: "r1 = None" and l2: "perform_loop H (length xs) ys s1 = (s, None)"
    by (cases r1; simp)+
  from perform_loop_response[OF assms(1) s] body
  have total: "length body = length (filter (\<lambda>op. fst op \<in> {OP_ADD, OP_UPDATE, OP_INVOKE}) (xs @ ys))"
    by auto
  from perform_loop_response[OF assms(1) l1[unfolded r1]]
  have n1: "length (response_data s1) = length (filter (\<lambda>op. fst op \<in> {OP_ADD, OP_UPDATE, OP_INVOKE}) xs)"
    by auto
  from perform_loop_response[OF assms(1) l2] body
  have pre: "take (length (response_data s1)) body = response_data s1"
    by auto
  have "perform_operations H reg st xs =
          (Inr (Response (response_data s1) (if response_data s1 \<noteq> [] then 200 else 204)),
           lid_to_id s1, store s1)"
    using l1 r1 by (simp add: perform_operations_succeeds)
  with total n1 pre show ?thesis by blast
qed

theorem response_entries_witness:
  "length [JObj [(JStr ''id'', JNum 2), (JStr ''title'', JStr ''T'')]] =
     length (filter (\<lambda>op. fst op \<in> {OP_ADD, OP_UPDATE, OP_INVOKE})
               ([(''add'', JObj [(JStr ''type'', JStr ''articles''), (JStr ''title'', JStr ''T'')])]
                @ [(''remove'', JObj [(JStr ''type'', JStr ''articles''), (JStr ''id'', JNum 1)])]))
   \<and> (\<exists>body_xs status_xs reg_xs st_xs.
         perform_operations (article_handlers True) (\<lambda>t. Map.empty) [(JNum 1, JStr ''A'')]
           [(''add'', JObj [(JStr ''type'', JStr ''articles''), (JStr ''title'', JStr ''T'')])]
           = (Inr (Response body_xs status_xs), reg_xs, st_xs)
       \<and> length body_xs =
           length (filter (\<lambda>op. fst op \<in> {OP_ADD, OP_UPDATE, OP_INVOKE})
                     [(''add'', JObj [(JStr ''type'', JStr ''articles''), (JStr ''title'', JStr ''T'')])])
       \<and> take (length body_xs) [JObj [(JStr ''id'', JNum 2), (JStr ''title'', JStr ''T'')]] = body_xs)"
proof -
  let ?run = "perform_operations (article_handlers True) (\<lambda>t. Map.empty) [(JNum 1, JStr ''A'')]
           ([(''add'', JObj [(JStr ''type'', JStr ''articles''), (JStr ''title'', JStr ''T'')])]
            @ [(''remove'', JObj [(JStr ''type'', JStr ''articles''), (JStr ''id'', JNum 1)])])"
  have seq: "sequential (article_handlers True)"
    by (simp add: article_handlers_def)
  have "fst ?run = Inr (Response [JObj [(JStr ''id'', JNum 2), (JStr ''title'', JStr ''T'')]] 200)"
    by code_simp
  then have run: "?run = (Inr (Response [JObj [(JStr ''id'', JNum 2), (JStr ''title'', JStr ''T'')]] 200),
                          fst (snd ?run), snd (snd ?run))"
    by (simp add: prod_eq_iff)
  show ?thesis by (rule response_entries [OF seq run])
qed

text \<open>
  C4 as stated fails: a batch of one remove succeeds, deletes the article, and its response
  list is empty, although the operation is not an \<open>update-relationship\<close>.
\<close>

theorem remove_has_no_response_entry:
  "fst (perform_operations (article_handlers True) (\<lambda>t. Map.empty) [(JNum 1, JStr ''A'')]
          [(''remove'', JObj [(JStr ''type'', JStr ''articles''), (JStr ''id'', JNum 1)])])
     = Inr (Response [] 204)
   \<and> snd (snd (perform_operations (article_handlers True) (\<lambda>t. Map.empty) [(JNum 1, JStr ''A'')]
          [(''remove'', JObj [(JStr ''type'', JStr ''articles''), (JStr ''id'', JNum 1)])])) = []
   \<and> length (filter (\<lambda>op. fst op \<noteq> OP_UPDATE_RELATIONSHIP)
               [(''remove'', JObj [(JStr ''type'', JStr ''articles''), (JStr ''id'', JNum 1)])]) = 1"
  by code_simp

subsection \<open>Relationship updates\<close>

lemma dict_get_JStr: "dict_get d k = JStr v \<Longrightarrow> map_of d (JStr k) = Some (JStr v)"
  by (auto simp add: dict_get_def split: option.splits)

lemma handle_sequential_relationship:
  assumes "handle_sequential H serializer OP_UPDATE_RELATIONSHIP s = Inr s'"
  shows "response_data s' = response_data s"
  using handle_sequential_effect[OF assms] by (auto simp add: op_defs)

lemma relationship_code:
  "(OP_UPDATE_RELATIONSHIP = ''add'') = False" "(OP_UPDATE_RELATIONSHIP = ''delete'') = False"
  by (simp_all add: op_defs)

lemma handle_bulk_relationship:
  assumes "handle_bulk H serializer OP_UPDATE_RELATIONSHIP next_operation_code next_resource_type s
             = Inr s'"
  shows "response_data s' = response_data s"
proof -
  let ?s1 = "s\<lparr>serializer_collection := serializer_collection s @ [serializer]\<rparr>"
  from assms obtain flush where
    f: "(if flush then
             and_then
               (handle_sequential H (hd (serializer_collection ?s1)) OP_UPDATE_RELATIONSHIP ?s1)
               (\<lambda>s2. Inr (s2\<lparr>serializer_collection := []\<rparr>))
           else Inr ?s1) = Inr s'"
    unfolding handle_bulk_def Let_def
    by (simp only: and_then_Inr_iff relationship_code if_False) blast
  show ?thesis
  proof (cases flush)
    case True
    with f obtain s2 where
      "handle_sequential H (hd (serializer_collection ?s1)) OP_UPDATE_RELATIONSHIP ?s1 = Inr s2"
      and "s' = s2\<lparr>serializer_collection := []\<rparr>"
      by (auto simp add: and_then_Inr_iff)
    with handle_sequential_relationship[of H _ ?s1 s2] show ?thesis by simp
  next
    case False
    with f show ?thesis by auto
  qed
qed

lemma perform_operation_relationship:
  assumes "perform_operation H idx (OP_UPDATE_RELATIONSHIP, obj) rest s = Inr s'"
  shows "response_data s' = response_data s"
proof -
  from assms obtain serializer where
    4: "(if sequential H then handle_sequential H serializer OP_UPDATE_RELATIONSHIP s
        else
          and_then
            (case rest of
               [] \<Rightarrow> Inr ([], JStr [])
             | next_operation # _ \<Rightarrow>
                 and_then (py_getitem (snd next_operation) ''type'') (\<lambda>t.
                   Inr (fst next_operation, t)))
            (\<lambda>(next_operation_code, next_resource_type).
               handle_bulk H serializer OP_UPDATE_RELATIONSHIP next_operation_code
                 next_resource_type s)) = Inr s'"
    unfolding perform_operation_def Let_def fst_conv snd_conv
    by (simp only: and_then_Inr_iff) blast
  show ?thesis
  proof (cases "sequential H")
    case True
    with 4 show ?thesis using handle_sequential_relationship by auto
  next
    case False
    with 4 obtain nc nt where
      "handle_bulk H serializer OP_UPDATE_RELATIONSHIP nc nt s = Inr s'"
      by (auto simp add: and_then_Inr_iff)
    then show ?thesis by (rule handle_bulk_relationship)
  qed
qed

text \<open>In sequential mode a relationship update is validated and saved, and nothing else.\<close>

lemma relationship_code_update:
  "(OP_UPDATE_RELATIONSHIP = OP_ADD) = False" "(OP_UPDATE_RELATIONSHIP = OP_INVOKE) = False"
  "(OP_UPDATE_RELATIONSHIP = OP_UPDATE_RELATIONSHIP) = True"
  "OP_UPDATE_RELATIONSHIP \<in> {OP_ADD, OP_UPDATE, OP_UPDATE_RELATIONSHIP}"
  "OP_UPDATE_RELATIONSHIP \<in> {OP_UPDATE, OP_UPDATE_RELATIONSHIP}"
  by (simp_all add: op_defs)

lemma handle_sequential_relationship_saved:
  assumes "handle_sequential H serializer OP_UPDATE_RELATIONSHIP s = Inr s'"
  shows "\<exists>st' i. is_valid H (store s) serializer = Inr ()
           \<and> save H (store s) serializer = Inr (st', i) \<and> s' = s\<lparr>store := st'\<rparr>"
proof -
  from handle_sequential_saving[OF relationship_code_update(4) assms]
  obtain resource_type lid where
    "save_and_record H serializer OP_UPDATE_RELATIONSHIP resource_type lid s = Inr s'"
    by (auto simp add: relationship_code_update)
  then show ?thesis
    by (auto simp add: save_and_record_def validate_and_save_def and_then_Inr_iff
          relationship_code_update split: prod.splits)
qed

lemma perform_operation_relationship_saved:
  assumes "sequential H"
      and "perform_operation H idx (OP_UPDATE_RELATIONSHIP, payload) rest s = Inr s'"
  shows "\<exists>obj resource_type serializer st' i.
           substitute_lids (lid_to_id s) payload idx True = Inr obj
         \<and> py_getitem obj ''type'' = Inr resource_type
         \<and> get_serializer H (store s) idx OP_UPDATE resource_type JNull obj True = Inr serializer
         \<and> initial_data serializer = Some obj
         \<and> is_valid H (store s) serializer = Inr ()
         \<and> save H (store s) serializer = Inr (st', i)
         \<and> s' = s\<lparr>store := st'\<rparr>"
proof -
  from assms(2) obtain obj resource_type serializer where
    1: "substitute_lids (lid_to_id s) payload idx True = Inr obj"
    and 2: "py_getitem obj ''type'' = Inr resource_type"
    and 3: "get_serializer H (store s) idx OP_UPDATE resource_type JNull obj True = Inr serializer"
    and 4: "handle_sequential H serializer OP_UPDATE_RELATIONSHIP s = Inr s'"
    unfolding perform_operation_def Let_def fst_conv snd_conv
    by (simp only: relationship_code_update if_False if_True simp_thms assms(1) and_then_simps
          and_then_Inr_iff) blast
  from handle_sequential_relationship_saved[OF 4] 1 2 3 get_serializer_initial_data[OF 3]
  show ?thesis by blast
qed

lemma check_relationship_update_data:
  assumes "dict_get operation ''op'' = JStr OP_UPDATE"
      and "\<not> truthy (dict_get operation ''href'')"
      and "dict_get operation ''ref'' = JObj ref"
      and "check_resource_identifier_object idx (JObj ref) (JStr ''update'') = Inr ()"
      and "truthy (dict_get ref ''relationship'')"
  shows "(map_of operation (JStr ''data'') = None \<longrightarrow>
            check_operation idx (JObj operation) = Inl (MissingPrimaryData idx))
       \<and> (map_of operation (JStr ''data'') = Some JNull \<longrightarrow>
            check_operation idx (JObj operation) = Inr ())"
proof -
  have "truthy (dict_get ref ''type'')"
    using assms(4) by (auto simp add: check_resource_identifier_object_def split: if_splits)
  then have "ref \<noteq> []" by (auto simp add: dict_get_def)
  with assms show ?thesis
    by (auto simp add: check_operation_def check_update_operation_def check_relation_update_def
         OP_UPDATE_def OP_INVOKE_def OP_ADD_def OP_REMOVE_def dict_get_def split: option.splits)
qed

lemma parse_one_relationship:
  assumes "dict_get operation ''op'' = JStr OP_UPDATE"
      and "dict_get operation ''ref'' = JObj ref"
      and "truthy (dict_get ref ''relationship'')"
      and "check_operation idx (JObj operation) = Inr ()"
      and "map_of operation (JStr ''data'') = Some data"
  shows "parse_one P result idx (JObj operation) =
           and_then (dict_key (dict_get ref ''relationship'')) (\<lambda>_.
           and_then (parse_operation P (rewritten_ref ref (dict_get ref ''relationship'') data)
                       (document_with_ref result idx
                          (rewritten_ref ref (dict_get ref ''relationship'') data))) (\<lambda>parsed.
           and_then (parse_operation_metadata (parser_repr P)
                       (rewritten_ref ref (dict_get ref ''relationship'') data)
                       (dict_get operation ''meta'')) (\<lambda>m.
             Inr ((OP_UPDATE_RELATIONSHIP, JObj (dict_update parsed m)),
                  document_with_ref result idx
                    (rewritten_ref ref (dict_get ref ''relationship'') data)))))"
proof -
  have op: "py_getitem (JObj operation) ''op'' = Inr (JStr OP_UPDATE)"
    using dict_get_JStr[OF assms(1)] by simp
  have r: "ref \<noteq> []"
    using assms(3) by (auto simp add: dict_get_def)
  obtain rel where rel: "map_of ref (JStr ''relationship'') = Some rel"
    using assms(3) by (cases "map_of ref (JStr ''relationship'')") (auto simp add: dict_get_def)
  then have g: "dict_get ref ''relationship'' = rel"
    by (simp add: dict_get_def)
  show ?thesis
    unfolding parse_one_def
    by (simp add: op assms(2,4,5) r rel g Let_def del: py_getitem.simps)
       (simp add: assms(5))
qed



text \<open>
  A relationship name need not be a string: a number is hashed as it is and becomes the
  key of the \<open>relationships\<close> member, and with it of the parsed payload.
\<close>

lemma numeric_relationship_name:
  "parse_data example_parser
     (JObj [(JStr ''atomic:operations'', JList [
        JObj [(JStr ''op'', JStr ''update''),
              (JStr ''ref'', JObj [(JStr ''type'', JStr ''comments''), (JStr ''id'', JNum 1),
                                   (JStr ''relationship'', JNum 5)]),
              (JStr ''data'', JNull)]])])
   = Inr [(''update-relationship'',
           JObj [(JStr ''id'', JNum 1), (JStr ''type'', JStr ''comments''), (JNum 5, JNull)])]"
  by code_simp

subsection \<open>The registry\<close>

lemma save_and_record_registry:
  assumes "save_and_record H serializer operation_code resource_type lid s = Inr s'"
  shows "if operation_code = OP_ADD \<and> truthy lid then
           \<exists>t l d v. dict_key resource_type = Inr t \<and> dict_key lid = Inr l
             \<and> py_getitem d ''id'' = Inr v
             \<and> response_data s' = response_data s @ [d]
             \<and> lid_to_id s' = (lid_to_id s)(t := (lid_to_id s t)(l \<mapsto> v))
         else lid_to_id s' = lid_to_id s"
proof -
  from assms obtain st' serializer' registry' response' where
    reg: "(if operation_code = OP_ADD \<and> truthy lid then
                 register_lid H st' serializer' resource_type lid (lid_to_id s)
               else Inr (lid_to_id s)) = Inr registry'"
    and resp: "(if operation_code \<noteq> OP_UPDATE_RELATIONSHIP then
                 and_then (serializer_data H st' serializer') (\<lambda>d. Inr (response_data s @ [d]))
               else Inr (response_data s)) = Inr response'"
    and s': "s' = s\<lparr>store := st', lid_to_id := registry', response_data := response'\<rparr>"
    unfolding save_and_record_def
    by (simp only: and_then_Inr_iff split_paired_Ex case_prod_conv sum.inject) blast
  show ?thesis
  proof (cases "operation_code = OP_ADD \<and> truthy lid")
    case False
    with reg s' show ?thesis by auto
  next
    case True
    with reg obtain d v t l where
      d: "serializer_data H st' serializer' = Inr d" "py_getitem d ''id'' = Inr v"
         "dict_key resource_type = Inr t" "dict_key lid = Inr l"
         "registry' = (lid_to_id s)(t := (lid_to_id s t)(l \<mapsto> v))"
      unfolding register_lid_def
      by (simp add: and_then_Inr_iff del: py_getitem.simps dict_key.simps) blast
    from True have "operation_code \<noteq> OP_UPDATE_RELATIONSHIP" by (auto simp add: op_defs)
    with resp d(1) have "response' = response_data s @ [d]" by simp
    with True d s' show ?thesis by auto
  qed
qed

lemma save_bulk_type_registry:
  assumes "save_bulk_type H serializer s = Inr s'"
  shows "lid_to_id s' = lid_to_id s"
  using save_bulk_type_effect[OF assms] by simp

lemma handle_sequential_registry:
  assumes "handle_sequential H serializer operation_code s = Inr s'"
  shows "lid_to_id s' = lid_to_id s
       \<or> (operation_code = OP_ADD
          \<and> (\<exists>resource_type lid t l d v.
                initial_data_get serializer ''type'' = Inr resource_type
              \<and> initial_data_get serializer ''lid'' = Inr lid
              \<and> truthy lid
              \<and> dict_key resource_type = Inr t \<and> dict_key lid = Inr l
              \<and> py_getitem d ''id'' = Inr v
              \<and> response_data s' = response_data s @ [d]
              \<and> lid_to_id s' = (lid_to_id s)(t := (lid_to_id s t)(l \<mapsto> v))))"
proof -
  consider (saving) "operation_code \<in> {OP_ADD, OP_UPDATE, OP_UPDATE_RELATIONSHIP}"
    | (remove) "operation_code = OP_REMOVE"
    | (invoke) "operation_code = OP_INVOKE"
    | (other) "operation_code \<notin> {OP_ADD, OP_UPDATE, OP_UPDATE_RELATIONSHIP, OP_REMOVE, OP_INVOKE}"
    by blast
  then show ?thesis
  proof cases
    case saving
    from handle_sequential_saving[OF saving assms] show ?thesis
    proof (elim disjE exE conjE)
      assume "save_bulk_type H serializer s = Inr s'"
      then show ?thesis using save_bulk_type_registry by blast
    next
      fix resource_type lid
      assume a: "initial_data_get serializer ''type'' = Inr resource_type"
        "initial_data_get serializer ''lid'' = Inr lid"
        "save_and_record H serializer operation_code resource_type lid s = Inr s'"
      show ?thesis
      proof (cases "operation_code = OP_ADD \<and> truthy lid")
        case True
        with save_and_record_registry[OF a(3)] a(1,2) show ?thesis by auto
      next
        case False
        with save_and_record_registry[OF a(3)] show ?thesis by auto
      qed
    qed
  next
    case remove
    with assms have "lid_to_id s' = lid_to_id s"
      by (auto simp add: handle_sequential_def op_defs and_then_Inr_iff split: option.splits)
    then show ?thesis by simp
  next
    case invoke
    with assms have "lid_to_id s' = lid_to_id s"
      by (auto simp add: handle_sequential_def op_defs and_then_Inr_iff validate_and_save_def
               split: prod.splits)
    then show ?thesis by simp
  next
    case other
    with assms show ?thesis by (auto simp add: handle_sequential_def)
  qed
qed

lemma handle_sequential_registers:
  assumes "handle_sequential H serializer OP_ADD s = Inr s'"
      and "initial_data_get serializer ''type'' = Inr (JStr t)"
      and "initial_data_get serializer ''lid'' = Inr (JStr l)"
      and "l \<noteq> []" and "take 4 t \<noteq> ''bulk''"
  shows "\<exists>d v. py_getitem d ''id'' = Inr v
            \<and> response_data s' = response_data s @ [d]
            \<and> lid_to_id s' = (lid_to_id s)(JStr t := (lid_to_id s (JStr t))(JStr l \<mapsto> v))"
proof -
  have "OP_ADD \<in> {OP_ADD, OP_UPDATE, OP_UPDATE_RELATIONSHIP}" by simp
  from handle_sequential_saving[OF this assms(1)] assms(2,3,5)
  have "save_and_record H serializer OP_ADD (JStr t) (JStr l) s = Inr s'"
    by (auto simp add: is_bulk_operation_type_def split: if_splits)
  from save_and_record_registry[OF this] assms(4) show ?thesis by auto
qed

lemma substitute_lids_object:
  assumes "substitute_lids reg (JObj d) idx b = Inr r"
  shows "\<exists>d'. r = JObj d'"
proof (cases "lookup_lid reg d")
  case (Inl e)
  with assms show ?thesis by (cases e) (auto simp add: and_then_Inr_iff split: if_splits)
next
  case (Inr x)
  with assms show ?thesis by (cases x) (auto simp add: and_then_Inr_iff)
qed

lemma dict_get_JStr_iff: "(dict_get d k = JStr v) = (map_of d (JStr k) = Some (JStr v))"
  by (auto simp add: dict_get_def split: option.splits)

lemma substitute_members_strings:
  "substitute_members reg skip d idx = Inr d' \<Longrightarrow>
   (map_of d' k = Some (JStr v)) = (map_of d k = Some (JStr v))"
proof (induction d arbitrary: d')
  case Nil
  then show ?case by simp
next
  case (Cons m d)
  obtain k' x where m: "m = (k', x)" by (cases m)
  show ?case
  proof (cases x)
    case (JObj o')
    with Cons.prems m obtain x' rest' where
      1: "(if skip \<and> k' = JStr ''id'' then Inr (JObj o') else substitute_lids reg (JObj o') idx True) = Inr x'"
      and 2: "substitute_members reg skip d idx = Inr rest'" and 3: "d' = (k', x') # rest'"
      by (auto simp add: and_then_Inr_iff simp del: substitute_lids.simps)
    from 1 have "\<exists>o''. x' = JObj o''"
      using substitute_lids_object by (auto split: if_splits)
    with Cons.IH[OF 2] 3 m JObj show ?thesis by auto
  next
    case (JList vs)
    with Cons.prems m obtain vs' rest' where
      2: "substitute_members reg skip d idx = Inr rest'" and 3: "d' = (k', JList vs') # rest'"
      by (auto simp add: and_then_Inr_iff)
    with Cons.IH[OF 2] m JList show ?thesis by auto
  qed (use Cons m in \<open>auto simp add: and_then_Inr_iff\<close>)
qed

lemma substitute_lids_strings:
  assumes "substitute_lids reg (JObj d) idx b = Inr r" and "k \<noteq> ''id''"
  shows "(py_get r k = Inr (JStr v)) = (dict_get d k = JStr v)"
proof -
  have u: "map_of (AList.update (JStr ''id'') x d') (JStr k) = map_of d' (JStr k)" for x d'
    using assms(2) by (simp add: update_conv')
  show ?thesis
  proof (cases "lookup_lid reg d")
    case (Inl e)
    with assms(1) show ?thesis
      by (cases e)
         (auto simp add: and_then_Inr_iff dict_get_JStr_iff substitute_members_strings
               split: if_splits)
  next
    case (Inr x)
    with assms(1) show ?thesis
      by (cases x)
         (auto simp add: and_then_Inr_iff dict_get_JStr_iff substitute_members_strings u)
  qed
qed

lemma dict_key_JStr: "dict_key x = Inr (JStr v) \<Longrightarrow> x = JStr v"
  by (cases x) auto

lemma initial_data_get_Some: "initial_data serializer = Some d \<Longrightarrow> initial_data_get serializer k = py_get d k"
  by (simp add: initial_data_get_def)

lemma round_registers:
  assumes "sequential H"
      and "perform_operation H idx (OP_ADD, JObj obj) rest s = Inr s'"
      and "dict_get obj ''lid'' = JStr l" and "l \<noteq> []"
      and "dict_get obj ''type'' = JStr t" and "take 4 t \<noteq> ''bulk''"
  shows "\<exists>v d. lid_to_id s' (JStr t) (JStr l) = Some v \<and> d \<in> set (response_data s')
           \<and> py_getitem d ''id'' = Inr v"
proof -
  from perform_operation_sequential[OF assms(1,2)] obtain obj' serializer where
    sub: "substitute_lids (lid_to_id s) (JObj obj) idx False = Inr obj'"
    and ini: "initial_data serializer = Some obj'"
    and hs: "handle_sequential H serializer OP_ADD s = Inr s'"
    by (auto simp add: op_defs)
  have "py_get obj' ''lid'' = Inr (JStr l)" "py_get obj' ''type'' = Inr (JStr t)"
    using substitute_lids_strings[OF sub] assms(3,5) by simp_all
  then have "initial_data_get serializer ''type'' = Inr (JStr t)"
    "initial_data_get serializer ''lid'' = Inr (JStr l)"
    using initial_data_get_Some[OF ini] by simp_all
  from handle_sequential_registers[OF hs this assms(4,6)] show ?thesis by auto
qed

lemma round_keeps:
  assumes "sequential H"
      and "perform_operation H idx operation rest s = Inr s'"
      and "lid_to_id s t l = Some v" and "d \<in> set (response_data s)"
      and "py_getitem d ''id'' = Inr v"
  shows "\<exists>v d. lid_to_id s' t l = Some v \<and> d \<in> set (response_data s')
           \<and> py_getitem d ''id'' = Inr v"
proof -
  from perform_operation_sequential[OF assms(1,2)] obtain serializer where
    hs: "handle_sequential H serializer (fst operation) s = Inr s'"
    by blast
  from handle_sequential_effect[OF hs] have d: "d \<in> set (response_data s')"
    using assms(4) by auto
  from handle_sequential_registry[OF hs] show ?thesis
  proof (elim disjE exE conjE)
    assume "lid_to_id s' = lid_to_id s"
    with d assms(3,5) show ?thesis by auto
  next
    fix t' l' d' v'
    assume n: "py_getitem d' ''id'' = Inr v'" "response_data s' = response_data s @ [d']"
      "lid_to_id s' = (lid_to_id s)(t' := (lid_to_id s t')(l' \<mapsto> v'))"
    show ?thesis
    proof (cases "t' = t \<and> l' = l")
      case True
      with n show ?thesis by auto
    next
      case False
      with n(3) assms(3) have "lid_to_id s' t l = Some v" by auto
      with d assms(5) show ?thesis by auto
    qed
  qed
qed

lemma round_unregistered:
  assumes "sequential H"
      and "perform_operation H idx operation rest s = Inr s'"
      and "lid_to_id s (JStr t) (JStr l) = None"
      and "\<not> (fst operation = OP_ADD
              \<and> (\<exists>d. snd operation = JObj d \<and> dict_get d ''lid'' = JStr l
                     \<and> dict_get d ''type'' = JStr t))"
  shows "lid_to_id s' (JStr t) (JStr l) = None"
proof -
  from perform_operation_sequential[OF assms(1,2)] obtain obj' serializer where
    sub: "substitute_lids (lid_to_id s) (snd operation) idx (fst operation \<noteq> OP_ADD) = Inr obj'"
    and ini: "fst operation \<noteq> OP_INVOKE \<longrightarrow> initial_data serializer = Some obj'"
    and hs: "handle_sequential H serializer (fst operation) s = Inr s'"
    by blast
  from handle_sequential_registry[OF hs] show ?thesis
  proof (elim disjE exE conjE)
    assume "lid_to_id s' = lid_to_id s"
    with assms(3) show ?thesis by simp
  next
    fix resource_type lid t' l' d' v'
    assume add: "fst operation = OP_ADD"
      and n: "initial_data_get serializer ''type'' = Inr resource_type"
        "initial_data_get serializer ''lid'' = Inr lid"
        "dict_key resource_type = Inr t'" "dict_key lid = Inr l'"
        "lid_to_id s' = (lid_to_id s)(t' := (lid_to_id s t')(l' \<mapsto> v'))"
    show ?thesis
    proof (cases "t' = JStr t \<and> l' = JStr l")
      case False
      with n(5) assms(3) show ?thesis by auto
    next
      case True
      with n(3,4) have rl: "resource_type = JStr t" "lid = JStr l"
        using dict_key_JStr by blast+
      from add ini have i: "initial_data serializer = Some obj'" by (simp add: op_defs)
      from n(1,2) rl have g: "py_get obj' ''type'' = Inr (JStr t)" "py_get obj' ''lid'' = Inr (JStr l)"
        using initial_data_get_Some[OF i] by simp_all
      obtain dd where dd: "snd operation = JObj dd"
        using sub g(1) by (cases "snd operation") auto
      from sub dd have "dict_get dd ''type'' = JStr t" "dict_get dd ''lid'' = JStr l"
        using substitute_lids_strings[of "lid_to_id s" dd idx "fst operation \<noteq> OP_ADD" obj'] g
        by simp_all
      with dd add assms(4) show ?thesis by blast
    qed
  qed
qed

lemma loop_keeps:
  assumes "sequential H"
  shows "perform_loop H idx ops s = (s', None) \<Longrightarrow>
         \<exists>v d. lid_to_id s t l = Some v \<and> d \<in> set (response_data s) \<and> py_getitem d ''id'' = Inr v \<Longrightarrow>
         \<exists>v d. lid_to_id s' t l = Some v \<and> d \<in> set (response_data s') \<and> py_getitem d ''id'' = Inr v"
proof (induction ops arbitrary: idx s)
  case Nil
  then show ?case by simp
next
  case (Cons op ops)
  show ?case
  proof (cases "perform_operation H idx op ops s")
    case (Inl e)
    with Cons.prems show ?thesis by simp
  next
    case (Inr s1)
    with Cons.prems have l: "perform_loop H (Suc idx) ops s1 = (s', None)" by simp
    from Cons.prems(2) round_keeps[OF assms Inr]
    have "\<exists>v d. lid_to_id s1 t l = Some v \<and> d \<in> set (response_data s1) \<and> py_getitem d ''id'' = Inr v"
      by blast
    with Cons.IH[OF l] show ?thesis by blast
  qed
qed

lemma loop_unregistered:
  assumes "sequential H"
  shows "perform_loop H idx ops s = (s', None) \<Longrightarrow>
         lid_to_id s (JStr t) (JStr l) = None \<Longrightarrow>
         \<forall>op \<in> set ops. \<not> (fst op = OP_ADD
              \<and> (\<exists>d. snd op = JObj d \<and> dict_get d ''lid'' = JStr l
                     \<and> dict_get d ''type'' = JStr t)) \<Longrightarrow>
         lid_to_id s' (JStr t) (JStr l) = None"
proof (induction ops arbitrary: idx s)
  case Nil
  then show ?case by simp
next
  case (Cons op ops)
  show ?case
  proof (cases "perform_operation H idx op ops s")
    case (Inl e)
    with Cons.prems show ?thesis by simp
  next
    case (Inr s1)
    with Cons.prems have l: "perform_loop H (Suc idx) ops s1 = (s', None)" by simp
    from Cons.prems(3) have
      "\<not> (fst op = OP_ADD \<and> (\<exists>d. snd op = JObj d \<and> dict_get d ''lid'' = JStr l
                     \<and> dict_get d ''type'' = JStr t))"
      by simp
    from round_unregistered[OF assms Inr Cons.prems(2) this]
    have "lid_to_id s1 (JStr t) (JStr l) = None" .
    from Cons.IH[OF l this] Cons.prems(3) show ?thesis by simp
  qed
qed

lemma lookup_lid_registered:
  assumes "dict_get ref ''lid'' = JStr l" and "l \<noteq> []" and "dict_get ref ''type'' = JStr t"
  shows "lookup_lid reg ref = (case reg (JStr t) (JStr l) of None \<Rightarrow> Inl KeyError | Some v \<Rightarrow> Inr (Some v))"
  using assms dict_get_JStr[OF assms(3)] by (simp add: lookup_lid_def)

lemma substitute_lids_resolved:
  assumes "lookup_lid reg ref = Inr (Some v)"
      and "substitute_lids reg (JObj ref) idx b = Inr r"
  shows "py_get r ''id'' = Inr v"
  using assms by (auto simp add: and_then_Inr_iff dict_get_def update_conv')

lemma substitute_members_at:
  "substitute_members reg skip d idx = Inr d' \<Longrightarrow> map_of d k = Some x \<Longrightarrow>
   \<not> (skip \<and> k = JStr ''id'') \<Longrightarrow>
   \<exists>x'. map_of d' k = Some x' \<and>
     (case x of
        JObj v \<Rightarrow> substitute_lids reg x idx True = Inr x'
      | JList vs \<Rightarrow> (\<exists>vs'. x' = JList vs' \<and> substitute_elements reg vs idx = Inr vs')
      | _ \<Rightarrow> x' = x)"
proof (induction d arbitrary: d')
  case Nil
  then show ?case by simp
next
  case (Cons m d)
  obtain k' y where m: "m = (k', y)" by (cases m)
  from Cons.prems(1) m obtain y' rest' where
    2: "substitute_members reg skip d idx = Inr rest'" and 3: "d' = (k', y') # rest'"
    and 4: "case y of
              JObj v \<Rightarrow> (if skip \<and> k' = JStr ''id'' then Inr y
                          else substitute_lids reg y idx True) = Inr y'
            | JList vs \<Rightarrow> (\<exists>vs'. y' = JList vs' \<and>
                  (if skip \<and> k' = JStr ''id'' then Inr vs
                   else substitute_elements reg vs idx) = Inr vs')
            | _ \<Rightarrow> y' = y"
    by (cases y) (auto simp add: and_then_Inr_iff simp del: substitute_lids.simps)
  show ?case
  proof (cases "k' = k")
    case True
    with Cons.prems(2,3) m 3 4 show ?thesis
      by (cases y) (auto simp del: substitute_lids.simps)
  next
    case False
    with Cons.prems(2) m have "map_of d k = Some x" by simp
    from Cons.IH[OF 2 this Cons.prems(3)] 3 False show ?thesis by simp
  qed
qed

lemma substitute_elements_nth:
  "substitute_elements reg vs idx = Inr vs' \<Longrightarrow> i < length vs \<Longrightarrow>
   i < length vs' \<and> substitute_lids reg (vs ! i) idx True = Inr (vs' ! i)"
proof (induction vs arbitrary: vs' i)
  case Nil
  then show ?case by simp
next
  case (Cons v vs)
  from Cons.prems(1) obtain v' rest' where
    1: "substitute_lids reg v idx True = Inr v'"
    and 2: "substitute_elements reg vs idx = Inr rest'" and 3: "vs' = v' # rest'"
    by (auto simp add: and_then_Inr_iff simp del: substitute_lids.simps)
  show ?case
  proof (cases i)
    case 0
    with 1 3 show ?thesis by (simp del: substitute_lids.simps)
  next
    case (Suc j)
    with Cons.prems(2) have "j < length vs" by simp
    from Cons.IH[OF 2 this] 3 Suc show ?thesis by (simp del: substitute_lids.simps)
  qed
qed

lemma substitute_lids_members:
  assumes "substitute_lids reg (JObj d) idx b = Inr r"
  shows "\<exists>skip d' r'. substitute_members reg skip d idx = Inr d' \<and> r = JObj r'
           \<and> (\<forall>k. k \<noteq> JStr ''id'' \<longrightarrow> map_of r' k = map_of d' k)"
proof (cases "lookup_lid reg d")
  case (Inl e)
  with assms show ?thesis
    by (cases e) (auto simp add: and_then_Inr_iff split: if_splits)
next
  case (Inr x)
  show ?thesis
  proof (cases x)
    case None
    with Inr assms show ?thesis by (auto simp add: and_then_Inr_iff)
  next
    case (Some v)
    with Inr assms obtain d' where
      "substitute_members reg True d idx = Inr d'" "r = JObj (AList.update (JStr ''id'') v d')"
      by (auto simp add: and_then_Inr_iff)
    moreover have "\<forall>k. k \<noteq> JStr ''id'' \<longrightarrow> map_of (AList.update (JStr ''id'') v d') k = map_of d' k"
      by (simp add: update_conv')
    ultimately show ?thesis by blast
  qed
qed

lemma descend_substituted:
  "descend payload path = Some (JObj ref) \<Longrightarrow> substitute_lids reg payload idx b = Inr r \<Longrightarrow>
   \<exists>r' b'. descend r path = Some r' \<and> substitute_lids reg (JObj ref) idx b' = Inr r'"
proof (induction path arbitrary: payload b r)
  case Nil
  then show ?case by (auto simp del: substitute_lids.simps)
next
  case (Cons st path)
  from Cons.prems(1) obtain data where payload: "payload = JObj data"
    by (cases payload; cases st) simp_all
  from substitute_lids_members[OF Cons.prems(2)[unfolded payload]] obtain skip d' rm where
    d': "substitute_members reg skip data idx = Inr d'" and r: "r = JObj rm"
    and same: "\<forall>k. k \<noteq> JStr ''id'' \<longrightarrow> map_of rm k = map_of d' k"
    by blast
  show ?case
  proof (cases st)
    case (Member k)
    with Cons.prems(1) payload obtain v where
      k: "k \<noteq> JStr ''id''" and v: "map_of data k = Some (JObj v)"
      and rest: "descend (JObj v) path = Some (JObj ref)"
      by (auto split: if_splits option.splits json.splits)
    from substitute_members_at[OF d' v] k obtain v' where
      v': "map_of d' k = Some v'" "substitute_lids reg (JObj v) idx True = Inr v'"
      by (auto simp del: substitute_lids.simps)
    from substitute_lids_object[OF v'(2)] obtain o' where o': "v' = JObj o'" by blast
    from Cons.IH[OF rest v'(2)] obtain r' b' where
      "descend v' path = Some r'" "substitute_lids reg (JObj ref) idx b' = Inr r'"
      by blast
    with Member r k same v'(1) o' show ?thesis
      by (auto simp del: substitute_lids.simps)
  next
    case (Element k i)
    with Cons.prems(1) payload obtain vs v where
      k: "k \<noteq> JStr ''id''" and vs: "map_of data k = Some (JList vs)"
      and i: "i < length vs" and v: "vs ! i = JObj v"
      and rest: "descend (JObj v) path = Some (JObj ref)"
      by (auto split: if_splits option.splits json.splits)
    from substitute_members_at[OF d' vs] k obtain vs' where
      vs': "map_of d' k = Some (JList vs')" "substitute_elements reg vs idx = Inr vs'"
      by auto
    from substitute_elements_nth[OF vs'(2) i] v have
      i': "i < length vs'" and v': "substitute_lids reg (JObj v) idx True = Inr (vs' ! i)"
      by (simp_all del: substitute_lids.simps)
    from substitute_lids_object[OF v'] obtain o' where o': "vs' ! i = JObj o'" by blast
    from Cons.IH[OF rest v'] obtain r' b' where
      "descend (vs' ! i) path = Some r'" "substitute_lids reg (JObj ref) idx b' = Inr r'"
      by blast
    with Element r k same vs'(1) i' o' show ?thesis
      by (auto simp del: substitute_lids.simps)
  qed
qed

lemma descend_nested:
  "descend payload path = Some (JObj ref) \<Longrightarrow> path \<noteq> [] \<Longrightarrow> nested (JObj ref) payload"
proof (induction path arbitrary: payload)
  case Nil
  then show ?case by simp
next
  case (Cons st path)
  from Cons.prems(1) obtain data where payload: "payload = JObj data"
    by (cases payload; cases st) simp_all
  show ?case
  proof (cases st)
    case (Member k)
    with Cons.prems(1) payload obtain v where
      k: "k \<noteq> JStr ''id''" and v: "map_of data k = Some (JObj v)"
      and rest: "descend (JObj v) path = Some (JObj ref)"
      by (auto split: if_splits option.splits json.splits)
    from v have n: "nested (JObj v) payload"
      unfolding payload using k by (intro nested_member[of k]) (auto dest: map_of_SomeD)
    show ?thesis
    proof (cases "path = []")
      case True
      with rest n show ?thesis by simp
    next
      case False
      from Cons.IH[OF rest False] n show ?thesis by (rule nested_trans)
    qed
  next
    case (Element k i)
    with Cons.prems(1) payload obtain vs v where
      k: "k \<noteq> JStr ''id''" and vs: "map_of data k = Some (JList vs)"
      and i: "i < length vs" and v: "vs ! i = JObj v"
      and rest: "descend (JObj v) path = Some (JObj ref)"
      by (auto split: if_splits option.splits json.splits)
    from i v have "JObj v \<in> set vs" by (metis nth_mem)
    with vs have n: "nested (JObj v) payload"
      unfolding payload using k by (intro nested_element[of k vs]) (auto dest: map_of_SomeD)
    show ?thesis
    proof (cases "path = []")
      case True
      with rest n show ?thesis by simp
    next
      case False
      from Cons.IH[OF rest False] n show ?thesis by (rule nested_trans)
    qed
  qed
qed

lemma perform_bulk_create_registry:
  "perform_bulk_create H s = Inr s' \<Longrightarrow> lid_to_id s' = lid_to_id s"
  by (auto simp add: perform_bulk_create_def Let_def and_then_Inr_iff split: prod.splits)

lemma perform_bulk_delete_registry:
  "perform_bulk_delete H s = Inr s' \<Longrightarrow> lid_to_id s' = lid_to_id s"
  by (auto simp add: perform_bulk_delete_def Let_def and_then_Inr_iff)

lemma handle_bulk_registry:
  assumes "handle_bulk H serializer code next_operation_code next_resource_type s = Inr s'"
  shows "lid_to_id s' = lid_to_id s"
proof -
  let ?s1 = "s\<lparr>serializer_collection := serializer_collection s @ [serializer]\<rparr>"
  from assms obtain flush where
    f: "(if flush then
           and_then
             (if code = ''add'' then perform_bulk_create H ?s1
              else if code = ''delete'' then perform_bulk_delete H ?s1
              else handle_sequential H (hd (serializer_collection ?s1)) code ?s1)
             (\<lambda>s2. Inr (s2\<lparr>serializer_collection := []\<rparr>))
         else Inr ?s1) = Inr s'"
    unfolding handle_bulk_def Let_def
    by (simp only: and_then_Inr_iff) blast
  show ?thesis
  proof (cases flush)
    case False
    with f show ?thesis by auto
  next
    case True
    with f obtain s2 where
      s2: "(if code = ''add'' then perform_bulk_create H ?s1
            else if code = ''delete'' then perform_bulk_delete H ?s1
            else handle_sequential H (hd (serializer_collection ?s1)) code ?s1) = Inr s2"
      and s': "s' = s2\<lparr>serializer_collection := []\<rparr>"
      by (auto simp add: and_then_Inr_iff)
    have "lid_to_id s2 = lid_to_id ?s1"
    proof (cases "code = ''add''")
      case True
      with s2 have "perform_bulk_create H ?s1 = Inr s2" by simp
      from perform_bulk_create_registry[OF this] show ?thesis .
    next
      case False
      show ?thesis
      proof (cases "code = ''delete''")
        case True
        with False s2 have "perform_bulk_delete H ?s1 = Inr s2" by simp
        from perform_bulk_delete_registry[OF this] show ?thesis .
      next
        case d: False
        with False s2 have
          "handle_sequential H (hd (serializer_collection ?s1)) code ?s1 = Inr s2"
          by simp
        from handle_sequential_registry[OF this] False show ?thesis
          by (auto simp add: OP_ADD_def)
      qed
    qed
    with s' show ?thesis by simp
  qed
qed

lemma perform_operation_bulk_registry:
  assumes "\<not> sequential H" and "perform_operation H idx operation rest s = Inr s'"
  shows "lid_to_id s' = lid_to_id s"
proof -
  from assms(2) obtain serializer where
    4: "(if sequential H then handle_sequential H serializer (fst operation) s
        else
          and_then
            (case rest of
               [] \<Rightarrow> Inr ([], JStr [])
             | next_operation # _ \<Rightarrow>
                 and_then (py_getitem (snd next_operation) ''type'') (\<lambda>t.
                   Inr (fst next_operation, t)))
            (\<lambda>(next_operation_code, next_resource_type).
               handle_bulk H serializer (fst operation) next_operation_code
                 next_resource_type s)) = Inr s'"
    unfolding perform_operation_def Let_def
    by (simp only: and_then_Inr_iff) blast
  with assms(1) obtain nc nt where
    "handle_bulk H serializer (fst operation) nc nt s = Inr s'"
    by (auto simp add: and_then_Inr_iff)
  then show ?thesis by (rule handle_bulk_registry)
qed

lemma perform_loop_bulk_registry:
  assumes "\<not> sequential H"
  shows "lid_to_id (fst (perform_loop H idx ops s)) = lid_to_id s"
proof (induction ops arbitrary: idx s)
  case Nil
  then show ?case by simp
next
  case (Cons op ops)
  show ?case
  proof (cases "perform_operation H idx op ops s")
    case (Inl e)
    then show ?thesis by simp
  next
    case (Inr s1)
    with Cons.IH[of "Suc idx" s1] perform_operation_bulk_registry[OF assms Inr]
    show ?thesis by simp
  qed
qed

lemma round_bulk_type:
  assumes "sequential H"
      and "perform_operation H idx (OP_ADD, JObj obj) rest s = Inr s'"
      and "dict_get obj ''type'' = JStr t" and "take 4 t = ''bulk''"
  shows "lid_to_id s' = lid_to_id s"
proof -
  from perform_operation_sequential[OF assms(1,2)] obtain obj' serializer where
    sub: "substitute_lids (lid_to_id s) (JObj obj) idx False = Inr obj'"
    and ini: "initial_data serializer = Some obj'"
    and hs: "handle_sequential H serializer OP_ADD s = Inr s'"
    by (auto simp add: op_defs)
  have "py_get obj' ''type'' = Inr (JStr t)"
    using substitute_lids_strings[OF sub] assms(3) by simp
  then have ty: "initial_data_get serializer ''type'' = Inr (JStr t)"
    using initial_data_get_Some[OF ini] by simp
  have "OP_ADD \<in> {OP_ADD, OP_UPDATE, OP_UPDATE_RELATIONSHIP}" by simp
  from handle_sequential_saving[OF this hs] ty assms(4)
  have "save_bulk_type H serializer s = Inr s'"
    by (auto simp add: is_bulk_operation_type_def split: if_splits)
  then show ?thesis by (rule save_bulk_type_registry)
qed

text \<open>
  Two runs that mark the bounds of what follows. An object in a list that is itself an
  element of a list is not visited, so its unknown lid goes unnoticed and the update
  succeeds; and of two nested objects the first raises, here the \<^verbatim>\<open>TypeError\<close> of a lid that
  is a list, before the unknown lid of the second is looked up.
\<close>

lemma reference_in_nested_list_not_visited:
  "fst (perform_operations (article_handlers True) (\<lambda>t. Map.empty) [(JNum 1, JStr ''A'')]
          [(''update'',
            JObj [(JStr ''type'', JStr ''articles''), (JStr ''id'', JNum 1),
                  (JStr ''title'', JStr ''X''),
                  (JStr ''related'',
                   JList [JList [JObj [(JStr ''type'', JStr ''articles''),
                                       (JStr ''lid'', JStr ''a'')]]])])])
     = Inr (Response [JObj [(JStr ''id'', JNum 1), (JStr ''title'', JStr ''X'')]] 200)"
  by code_simp

lemma unhashable_lid_raises_first:
  "fst (perform_operations (article_handlers True) (\<lambda>t. Map.empty) [(JNum 1, JStr ''A'')]
          [(''update'',
            JObj [(JStr ''type'', JStr ''articles''), (JStr ''id'', JNum 1),
                  (JStr ''first'', JObj [(JStr ''type'', JStr ''articles''),
                                         (JStr ''lid'', JList [JStr ''a''])]),
                  (JStr ''second'', JObj [(JStr ''type'', JStr ''articles''),
                                          (JStr ''lid'', JStr ''a'')])])])
     = Inl TypeError"
  by code_simp




subsection \<open>Requests\<close>

text \<open>
  An exception leaves the store as the request found it, and in sequential mode the
  operations after the failing one play no part.
\<close>

lemma perform_operations_rollback:
  assumes "fst (perform_operations H reg st ops) = Inl e"
  shows "snd (snd (perform_operations H reg st ops)) = st"
  using assms
  by (cases "perform_loop H 0 ops
               \<lparr>store = st, lid_to_id = reg, response_data = [], serializer_collection = []\<rparr>")
     (auto simp add: perform_operations_def atomic_def Let_def split: option.splits)

lemma failure_ends_loop:
  assumes "sequential H" and "perform_loop H idx xs s = (s1, Some e)"
  shows "perform_loop H idx (xs @ ys) s = (s1, Some e)"
  using perform_loop_append[OF assms(1), of idx xs ys s] assms(2) by simp

text \<open>
  C1, at the failing input: in bulk mode, two updates of articles in a row. The request
  succeeds with one response entry; the first article has its new title and the second
  has not, so one operation's effect is visible and the other's is not. In sequential mode
  the same batch changes both.
\<close>

theorem bulk_updates_partly_applied:
  "fst (perform_operations (article_handlers False) (\<lambda>t. Map.empty)
          [(JNum 1, JStr ''A''), (JNum 2, JStr ''B'')]
          [(''update'', JObj [(JStr ''id'', JNum 1), (JStr ''type'', JStr ''articles''), (JStr ''title'', JStr ''X'')]),
           (''update'', JObj [(JStr ''id'', JNum 2), (JStr ''type'', JStr ''articles''), (JStr ''title'', JStr ''Y'')])])
     = Inr (Response [JObj [(JStr ''id'', JNum 1), (JStr ''title'', JStr ''X'')]] 200)
   \<and> snd (snd (perform_operations (article_handlers False) (\<lambda>t. Map.empty)
          [(JNum 1, JStr ''A''), (JNum 2, JStr ''B'')]
          [(''update'', JObj [(JStr ''id'', JNum 1), (JStr ''type'', JStr ''articles''), (JStr ''title'', JStr ''X'')]),
           (''update'', JObj [(JStr ''id'', JNum 2), (JStr ''type'', JStr ''articles''), (JStr ''title'', JStr ''Y'')])]))
     = [(JNum 1, JStr ''X''), (JNum 2, JStr ''B'')]
   \<and> snd (snd (perform_operations (article_handlers True) (\<lambda>t. Map.empty)
          [(JNum 1, JStr ''A''), (JNum 2, JStr ''B'')]
          [(''update'', JObj [(JStr ''id'', JNum 1), (JStr ''type'', JStr ''articles''), (JStr ''title'', JStr ''X'')]),
           (''update'', JObj [(JStr ''id'', JNum 2), (JStr ''type'', JStr ''articles''), (JStr ''title'', JStr ''Y'')])]))
     = [(JNum 1, JStr ''X''), (JNum 2, JStr ''Y'')]"
  by code_simp

text \<open>
  C3, at the failing input: two requests to the same view class. The first batch adds an
  article under the lid \<open>a\<close>. The second batch, given the registry and the store the first
  one left, updates the lid \<open>a\<close> and is resolved to the article of the first batch; with a
  fresh registry the second batch fails with \<open>unknown-lid\<close>.
\<close>

theorem lid_resolved_in_next_request:
  "fst (perform_operations (article_handlers True) (\<lambda>t. Map.empty) []
          [(''add'', JObj [(JStr ''type'', JStr ''articles''), (JStr ''lid'', JStr ''a''), (JStr ''title'', JStr ''T'')])])
     = Inr (Response [JObj [(JStr ''id'', JNum 1), (JStr ''title'', JStr ''T'')]] 200)
   \<and> fst (perform_operations (article_handlers True)
          (fst (snd (perform_operations (article_handlers True) (\<lambda>t. Map.empty) []
             [(''add'', JObj [(JStr ''type'', JStr ''articles''), (JStr ''lid'', JStr ''a''), (JStr ''title'', JStr ''T'')])])))
          (snd (snd (perform_operations (article_handlers True) (\<lambda>t. Map.empty) []
             [(''add'', JObj [(JStr ''type'', JStr ''articles''), (JStr ''lid'', JStr ''a''), (JStr ''title'', JStr ''T'')])])))
          [(''update'', JObj [(JStr ''type'', JStr ''articles''), (JStr ''lid'', JStr ''a''), (JStr ''title'', JStr ''T2'')])])
     = Inr (Response [JObj [(JStr ''id'', JNum 1), (JStr ''title'', JStr ''T2'')]] 200)
   \<and> fst (perform_operations (article_handlers True) (\<lambda>t. Map.empty) [(JNum 1, JStr ''T'')]
          [(''update'', JObj [(JStr ''type'', JStr ''articles''), (JStr ''lid'', JStr ''a''), (JStr ''title'', JStr ''T2'')])])
     = Inl (unknown_lid 0)"
  by code_simp

text \<open>
  C5, at the failing input: in bulk mode, two removes of articles in a row. The run is
  flushed at the end of the batch, but \<open>handle_bulk\<close> compares the operation code with
  \<open>delete\<close>, not \<open>remove\<close>, so \<open>perform_bulk_delete\<close> is not called: the first article alone is
  deleted, one instance at a time, and the response list stays empty.
\<close>

theorem bulk_removes_delete_first_only:
  "fst (perform_operations (article_handlers False) (\<lambda>t. Map.empty)
          [(JNum 1, JStr ''A''), (JNum 2, JStr ''B'')]
          [(''remove'', JObj [(JStr ''id'', JNum 1), (JStr ''type'', JStr ''articles'')]),
           (''remove'', JObj [(JStr ''id'', JNum 2), (JStr ''type'', JStr ''articles'')])])
     = Inr (Response [] 204)
   \<and> snd (snd (perform_operations (article_handlers False) (\<lambda>t. Map.empty)
          [(JNum 1, JStr ''A''), (JNum 2, JStr ''B'')]
          [(''remove'', JObj [(JStr ''id'', JNum 1), (JStr ''type'', JStr ''articles'')]),
           (''remove'', JObj [(JStr ''id'', JNum 2), (JStr ''type'', JStr ''articles'')])]))
     = [(JNum 2, JStr ''B'')]"
  by code_simp

end
